theory Spec2Isabelle
  imports Main "HOL-Library.AList"
begin

section \<open>Python values and strings\<close>

text \<open>
  The metadata code is dynamically typed: a field of a record holds \<open>None\<close>, a string, an
  integer (a year from a JSON reply), a float (a year column that pandas read with missing
  cells) or a boolean. A float is carried by the text Python prints for it, so that
  \<open>str(2020.0)\<close> is \<open>''2020.0''\<close> and NaN is the float printed as \<open>''nan''\<close>; no
  arithmetic on floats is needed anywhere in the modelled code. Strings are byte strings of
  ASCII text.
\<close>

datatype pyval = PNone | PBool bool | PInt int | PFloat string | PStr string

text \<open>The characters \<open>str.strip()\<close> removes: tab, LF, VT, FF, CR, FS, GS, RS, US, space.\<close>

definition is_space :: "char \<Rightarrow> bool" where
  "is_space c = (c \<in> set [CHR 0x09, CHR 0x0A, CHR 0x0B, CHR 0x0C, CHR 0x0D,
                           CHR 0x1C, CHR 0x1D, CHR 0x1E, CHR 0x1F, CHR 0x20])"

definition lstrip :: "string \<Rightarrow> string" where
  "lstrip s = dropWhile is_space s"

definition rstrip :: "string \<Rightarrow> string" where
  "rstrip s = rev (dropWhile is_space (rev s))"

definition strip :: "string \<Rightarrow> string" where
  "strip s = rstrip (lstrip s)"

definition startswith :: "string \<Rightarrow> string \<Rightarrow> bool" where
  "startswith s p = (take (length p) s = p)"

definition endswith :: "string \<Rightarrow> string \<Rightarrow> bool" where
  "endswith s p = (length p \<le> length s \<and> drop (length s - length p) s = p)"

text \<open>
  \<open>s.replace(old, new)\<close>: every occurrence of \<open>old\<close>, found from the left and without
  overlap, is replaced. With an empty \<open>old\<close> Python puts \<open>new\<close> before every character
  and at the end.
\<close>

function replace :: "string \<Rightarrow> string \<Rightarrow> string \<Rightarrow> string" where
  "replace s old new =
     (if old = [] then new @ concat (map (\<lambda>c. c # new) s)
      else if s = [] then []
      else if startswith s old then new @ replace (drop (length old) s) old new
      else hd s # replace (tl s) old new)"
  by pat_completeness auto
termination
  by (relation "measure (\<lambda>(s, old, new). length s)") auto

declare replace.simps [simp del]

text \<open>\<open>str(n)\<close> for an integer: decimal digits, with a minus sign below zero.\<close>

definition digit_char :: "nat \<Rightarrow> char" where
  "digit_char d = char_of (48 + d)"

function str_nat :: "nat \<Rightarrow> string" where
  "str_nat n = (if n < 10 then [digit_char n] else str_nat (n div 10) @ [digit_char (n mod 10)])"
  by pat_completeness auto
termination
  by (relation "measure id") auto

declare str_nat.simps [simp del]

definition str_int :: "int \<Rightarrow> string" where
  "str_int i = (if i < 0 then CHR ''-'' # str_nat (nat (- i)) else str_nat (nat i))"

fun py_str :: "pyval \<Rightarrow> string" where
  "py_str PNone = ''None''"
| "py_str (PBool b) = (if b then ''True'' else ''False'')"
| "py_str (PInt i) = str_int i"
| "py_str (PFloat r) = r"
| "py_str (PStr s) = s"

text \<open>Truth value of an object in a condition (\<open>if x\<close>, \<open>x or y\<close>, \<open>not x\<close>).\<close>

fun truthy :: "pyval \<Rightarrow> bool" where
  "truthy PNone = False"
| "truthy (PBool b) = b"
| "truthy (PInt i) = (i \<noteq> 0)"
| "truthy (PFloat r) = (r \<noteq> ''0.0'' \<and> r \<noteq> ''-0.0'')"
| "truthy (PStr s) = (s \<noteq> [])"

definition py_or :: "pyval \<Rightarrow> pyval \<Rightarrow> pyval" where
  "py_or a b = (if truthy a then a else b)"

section \<open>Identifier normalizer\<close>

text \<open>
  \<open>normalize_doi\<close> is defined twice in the repository, in \<open>fetch_metadata_from_title.py\<close>
  and in \<open>ingestion_engine.py\<close>, with the same body.
\<close>

definition normalize_doi :: "pyval \<Rightarrow> pyval" where
  "normalize_doi v =
     (case v of
        PStr s \<Rightarrow>
          if strip s = [] then PNone
          else
            let doi = strip s;
                doi = (if startswith doi ''http://doi.org/'' then replace doi ''http://doi.org/'' ''''
                       else if startswith doi ''https://doi.org/'' then replace doi ''https://doi.org/'' ''''
                       else if startswith doi ''http://dx.doi.org/'' then replace doi ''http://dx.doi.org/'' ''''
                       else if startswith doi ''https://dx.doi.org/'' then replace doi ''https://dx.doi.org/'' ''''
                       else doi)
            in if doi \<noteq> [] then PStr doi else PNone
      | _ \<Rightarrow> PNone)"

definition known_prefixes :: "string list" where
  "known_prefixes = [''http://doi.org/'', ''https://doi.org/'', ''http://dx.doi.org/'', ''https://dx.doi.org/'']"

text \<open>
  An already-bare identifier: not empty, no surrounding whitespace, none of the known
  resolver prefixes in front.
\<close>

definition bare :: "string \<Rightarrow> bool" where
  "bare d = (d \<noteq> [] \<and> strip d = d \<and> list_all (\<lambda>p. \<not> startswith d p) known_prefixes)"

text \<open>\<open>occurs s p\<close>: the text \<open>p\<close> occurs somewhere in \<open>s\<close>.\<close>

fun occurs :: "string \<Rightarrow> string \<Rightarrow> bool" where
  "occurs [] p = (p = [])"
| "occurs (c # cs) p = (startswith (c # cs) p \<or> occurs cs p)"

section \<open>Records and the merge step\<close>

text \<open>
  A Python \<open>dict\<close> with string keys, in insertion order. \<open>d.get(k)\<close> is \<open>dict_get\<close>
  (\<open>None\<close> for a missing key), \<open>d[k] = v\<close> is \<open>AList.update k v d\<close>: the entry is
  replaced in place, or appended when the key is new.
\<close>

type_synonym dict = "(string \<times> pyval) list"

definition dict_get :: "dict \<Rightarrow> string \<Rightarrow> pyval" where
  "dict_get d k = (case map_of d k of None \<Rightarrow> PNone | Some v \<Rightarrow> v)"

text \<open>\<open>v in [None, "", "NaN"]\<close>: list membership compares with \<open>==\<close>.\<close>

definition unset_like :: "pyval \<Rightarrow> bool" where
  "unset_like v = (v = PNone \<or> v = PStr [] \<or> v = PStr ''NaN'')"

text \<open>
  \<open>enrich(current, new)\<close>, the nested function of \<open>fetch_metadata_from_doi\<close> and of
  \<open>fetch_metadata_from_title\<close> (same body): \<open>enrich_items\<close> is its \<open>for\<close> loop over
  \<open>new.items()\<close>. The source updates \<open>current\<close> in place and returns it; the model
  returns the updated dict.
\<close>

fun enrich_items :: "dict \<Rightarrow> dict \<Rightarrow> dict" where
  "enrich_items current [] = current"
| "enrich_items current ((k, v) # new) =
     enrich_items
       (if unset_like (dict_get current k) \<and> \<not> unset_like v then AList.update k v current
        else current)
       new"

definition enrich :: "dict \<Rightarrow> dict \<Rightarrow> dict" where
  "enrich current new = (if new = [] then current else enrich_items current new)"

definition is_complete :: "dict \<Rightarrow> bool" where
  "is_complete m = list_all (\<lambda>k. \<not> unset_like (dict_get m k)) (map fst m)"

section \<open>Provider replies\<close>

datatype provider = OpenAlex | DataCite | Crossref | Unpaywall | EuropePMC | SemanticScholar

text \<open>
  A request asks a provider either about an identifier or about the title the lookup was
  started with. The title is fixed during one lookup (it is cleaned once, before the first
  request), so a title query carries no text.
\<close>

datatype query = ByDoi string | ByTitle

text \<open>
  The bibliographic fields a provider block reads from a reply, each as the value of the
  source's expression for it: \<open>None\<close> where the reply has no such entry.
\<close>

record biblio =
  r_authors :: pyval
  r_title :: pyval
  r_journal :: pyval
  r_volume :: pyval
  r_issue :: pyval
  r_pages :: pyval
  r_year :: pyval

text \<open>
  How far the body of one provider's \<open>try\<close> block gets. The network, the HTTP library and
  the JSON of the reply are outside the repository; a reply is what the block sees of them.
  \<^item> \<open>Raised\<close>: \<open>requests.get\<close>, \<open>r.json()\<close> or the reading of the reply raised an
    \<open>Exception\<close> before the identifier of the reply was read;
  \<^item> \<open>NoResult\<close>: the status is not 200, or the result list is empty;
  \<^item> \<open>RaisedAfterId i\<close>: the identifier entry \<open>i\<close> was read, then building the record
    raised an \<open>Exception\<close> (an author entry that is not a string, an empty
    \<open>date-parts\<close> list);
  \<^item> \<open>Hit i b u\<close>: the record was built from the identifier entry \<open>i\<close>, the fields
    \<open>b\<close> and the reply's own URL entry \<open>u\<close> (\<open>None\<close> when it has none).
\<close>

datatype reply = Raised | NoResult | RaisedAfterId pyval | Hit pyval biblio "pyval option"

type_synonym world = "provider \<Rightarrow> query \<Rightarrow> reply"

text \<open>\<open>x.get("url")\<close> on the reply's URL entry.\<close>

definition url_get :: "pyval option \<Rightarrow> pyval" where
  "url_get u = (case u of None \<Rightarrow> PNone | Some x \<Rightarrow> x)"

text \<open>The f-string \<open>f"https://doi.org/{doi}"\<close>.\<close>

definition doi_url :: "pyval \<Rightarrow> pyval" where
  "doi_url doi = PStr (''https://doi.org/'' @ py_str doi)"

text \<open>\<open>str.lower()\<close> on ASCII text.\<close>

definition lower_char :: "char \<Rightarrow> char" where
  "lower_char c =
     (if 65 \<le> (of_char c :: nat) \<and> (of_char c :: nat) \<le> 90 then char_of (of_char c + (32::nat))
      else c)"

definition lower :: "string \<Rightarrow> string" where
  "lower s = map lower_char s"

text \<open>
  One call of a provider as the lookup made it: which provider, with which key, and the
  running record when its block was left. The list of calls is kept beside the returned
  record to state which providers a lookup consulted.
\<close>

datatype call = Call (source: provider) (asked: query) (after: dict)

record lookup =
  result :: "dict option"
  trace :: "call list"

datatype step = Returned dict | Continued dict

text \<open>
  The body shared by the provider blocks: on a reply with status 200 the record \<open>mk i b u\<close>
  is merged and the lookup returns if the record is complete; a status other than 200
  falls through, and \<open>except Exception: pass\<close> leaves the record as it was.
\<close>

definition try_block ::
  "reply \<Rightarrow> (pyval \<Rightarrow> biblio \<Rightarrow> pyval option \<Rightarrow> dict) \<Rightarrow> dict \<Rightarrow> step" where
  "try_block rp mk meta =
     (case rp of
        Hit i b u \<Rightarrow>
          (let meta' = enrich meta (mk i b u)
           in if is_complete meta' then Returned meta' else Continued meta')
      | _ \<Rightarrow> Continued meta)"

section \<open>Lookup by identifier\<close>

text \<open>The dict literals of \<open>fetch_metadata_from_doi\<close>, one per provider block.\<close>

definition openalex_doi_record :: "string \<Rightarrow> pyval \<Rightarrow> biblio \<Rightarrow> pyval option \<Rightarrow> dict" where
  "openalex_doi_record doi i b u =
     [(''authors'', r_authors b), (''title'', r_title b), (''journal'', r_journal b),
      (''volume'', r_volume b), (''issue'', r_issue b), (''pages'', r_pages b),
      (''year'', r_year b), (''url'', py_or (url_get u) (doi_url (PStr doi)))]"

definition datacite_record :: "string \<Rightarrow> pyval \<Rightarrow> biblio \<Rightarrow> pyval option \<Rightarrow> dict" where
  "datacite_record doi i b u =
     [(''authors'', r_authors b), (''title'', r_title b), (''journal'', r_journal b),
      (''year'', r_year b), (''url'', py_or (url_get u) (doi_url (PStr doi)))]"

definition crossref_doi_record :: "string \<Rightarrow> pyval \<Rightarrow> biblio \<Rightarrow> pyval option \<Rightarrow> dict" where
  "crossref_doi_record doi i b u =
     [(''authors'', r_authors b), (''title'', r_title b), (''journal'', r_journal b),
      (''volume'', r_volume b), (''issue'', r_issue b), (''pages'', r_pages b),
      (''year'', r_year b), (''url'', doi_url (PStr doi))]"

text \<open>
  For Unpaywall the URL entry of the reply is the value of
  \<open>best_loc.get("url") or u.get("doi_url")\<close>.
\<close>

definition unpaywall_record :: "string \<Rightarrow> pyval \<Rightarrow> biblio \<Rightarrow> pyval option \<Rightarrow> dict" where
  "unpaywall_record doi i b u =
     [(''authors'', r_authors b), (''title'', r_title b), (''journal'', r_journal b),
      (''volume'', r_volume b), (''issue'', r_issue b), (''pages'', r_pages b),
      (''year'', r_year b), (''url'', py_or (url_get u) (doi_url (PStr doi)))]"

text \<open>Europe PMC: \<open>.get("url", f"https://doi.org/{doi}")\<close>, the default only for a missing entry.\<close>

definition europepmc_doi_record :: "string \<Rightarrow> pyval \<Rightarrow> biblio \<Rightarrow> pyval option \<Rightarrow> dict" where
  "europepmc_doi_record doi i b u =
     [(''authors'', r_authors b), (''title'', r_title b), (''journal'', r_journal b),
      (''volume'', r_volume b), (''issue'', r_issue b), (''pages'', r_pages b),
      (''year'', r_year b),
      (''url'', (case u of None \<Rightarrow> doi_url (PStr doi) | Some x \<Rightarrow> x))]"

definition semantic_doi_record :: "string \<Rightarrow> pyval \<Rightarrow> biblio \<Rightarrow> pyval option \<Rightarrow> dict" where
  "semantic_doi_record doi i b u =
     [(''authors'', r_authors b), (''title'', r_title b), (''journal'', r_journal b),
      (''year'', r_year b), (''url'', py_or (url_get u) (doi_url (PStr doi)))]"

definition empty_meta_doi :: dict where
  "empty_meta_doi =
     [(''authors'', PNone), (''title'', PNone), (''journal'', PNone), (''volume'', PNone),
      (''issue'', PNone), (''pages'', PNone), (''year'', PNone), (''url'', PNone)]"

text \<open>
  \<open>fetch_metadata_from_doi\<close>, block by block from the last one. Each function is the
  rest of the source function from the named block on, given the running record and the
  calls made so far. The \<open>delay\<close> between the first two blocks is taken at its default,
  for which \<open>time.sleep\<close> returns.
\<close>

definition doi_from_semantic :: "world \<Rightarrow> string \<Rightarrow> dict \<Rightarrow> call list \<Rightarrow> lookup" where
  "doi_from_semantic w doi meta tr =
     (case try_block (w SemanticScholar (ByDoi doi)) (semantic_doi_record doi) meta of
        Returned m \<Rightarrow> \<lparr>result = Some m, trace = tr @ [Call SemanticScholar (ByDoi doi) m]\<rparr>
      | Continued m \<Rightarrow>
          \<lparr>result = Some (if \<not> truthy (dict_get m ''url'')
                           then AList.update ''url'' (doi_url (PStr doi)) m else m),
           trace = tr @ [Call SemanticScholar (ByDoi doi) m]\<rparr>)"

definition doi_from_europepmc :: "world \<Rightarrow> string \<Rightarrow> dict \<Rightarrow> call list \<Rightarrow> lookup" where
  "doi_from_europepmc w doi meta tr =
     (case try_block (w EuropePMC (ByDoi doi)) (europepmc_doi_record doi) meta of
        Returned m \<Rightarrow> \<lparr>result = Some m, trace = tr @ [Call EuropePMC (ByDoi doi) m]\<rparr>
      | Continued m \<Rightarrow> doi_from_semantic w doi m (tr @ [Call EuropePMC (ByDoi doi) m]))"

definition doi_from_unpaywall :: "world \<Rightarrow> string \<Rightarrow> dict \<Rightarrow> call list \<Rightarrow> lookup" where
  "doi_from_unpaywall w doi meta tr =
     (case try_block (w Unpaywall (ByDoi doi)) (unpaywall_record doi) meta of
        Returned m \<Rightarrow> \<lparr>result = Some m, trace = tr @ [Call Unpaywall (ByDoi doi) m]\<rparr>
      | Continued m \<Rightarrow> doi_from_europepmc w doi m (tr @ [Call Unpaywall (ByDoi doi) m]))"

definition doi_from_crossref :: "world \<Rightarrow> string \<Rightarrow> dict \<Rightarrow> call list \<Rightarrow> lookup" where
  "doi_from_crossref w doi meta tr =
     (case try_block (w Crossref (ByDoi doi)) (crossref_doi_record doi) meta of
        Returned m \<Rightarrow> \<lparr>result = Some m, trace = tr @ [Call Crossref (ByDoi doi) m]\<rparr>
      | Continued m \<Rightarrow> doi_from_unpaywall w doi m (tr @ [Call Crossref (ByDoi doi) m]))"

definition doi_from_datacite :: "world \<Rightarrow> string \<Rightarrow> dict \<Rightarrow> call list \<Rightarrow> lookup" where
  "doi_from_datacite w doi meta tr =
     (case try_block (w DataCite (ByDoi (lower doi))) (datacite_record doi) meta of
        Returned m \<Rightarrow> \<lparr>result = Some m, trace = tr @ [Call DataCite (ByDoi (lower doi)) m]\<rparr>
      | Continued m \<Rightarrow> doi_from_crossref w doi m (tr @ [Call DataCite (ByDoi (lower doi)) m]))"

definition doi_from_openalex :: "world \<Rightarrow> string \<Rightarrow> dict \<Rightarrow> call list \<Rightarrow> lookup" where
  "doi_from_openalex w doi meta tr =
     (case try_block (w OpenAlex (ByDoi doi)) (openalex_doi_record doi) meta of
        Returned m \<Rightarrow> \<lparr>result = Some m, trace = tr @ [Call OpenAlex (ByDoi doi) m]\<rparr>
      | Continued m \<Rightarrow> doi_from_datacite w doi m (tr @ [Call OpenAlex (ByDoi doi) m]))"

definition fetch_metadata_from_doi :: "world \<Rightarrow> pyval \<Rightarrow> lookup" where
  "fetch_metadata_from_doi w doi =
     (case doi of
        PStr s \<Rightarrow>
          if strip s = [] then \<lparr>result = None, trace = []\<rparr>
          else doi_from_openalex w (strip s) empty_meta_doi []
      | _ \<Rightarrow> \<lparr>result = None, trace = []\<rparr>)"

definition doi_order :: "provider list" where
  "doi_order = [OpenAlex, DataCite, Crossref, Unpaywall, EuropePMC, SemanticScholar]"

section \<open>Lookup by title\<close>

text \<open>The dict literals of \<open>fetch_metadata_from_title\<close>.\<close>

definition openalex_title_record :: "pyval \<Rightarrow> biblio \<Rightarrow> pyval option \<Rightarrow> dict" where
  "openalex_title_record doi b u =
     [(''doi'', doi),
      (''authors'', r_authors b), (''title'', r_title b), (''journal'', r_journal b),
      (''volume'', r_volume b), (''issue'', r_issue b), (''pages'', r_pages b),
      (''year'', r_year b),
      (''url'', if truthy doi then doi_url doi else url_get u)]"

definition crossref_title_record :: "pyval \<Rightarrow> biblio \<Rightarrow> pyval option \<Rightarrow> dict" where
  "crossref_title_record doi b u =
     [(''doi'', doi),
      (''authors'', r_authors b), (''title'', r_title b), (''journal'', r_journal b),
      (''volume'', r_volume b), (''issue'', r_issue b), (''pages'', r_pages b),
      (''year'', r_year b),
      (''url'', if truthy doi then doi_url doi else PNone)]"

definition europepmc_title_record :: "pyval \<Rightarrow> biblio \<Rightarrow> pyval option \<Rightarrow> dict" where
  "europepmc_title_record normalized_doi b u =
     [(''doi'', normalized_doi),
      (''authors'', r_authors b), (''title'', r_title b), (''journal'', r_journal b),
      (''volume'', r_volume b), (''issue'', r_issue b), (''pages'', r_pages b),
      (''year'', r_year b),
      (''url'', url_get u)]"

definition semantic_title_record :: "pyval \<Rightarrow> biblio \<Rightarrow> pyval option \<Rightarrow> dict" where
  "semantic_title_record doi b u =
     [(''doi'', doi),
      (''authors'', r_authors b), (''title'', r_title b), (''journal'', r_journal b),
      (''year'', r_year b),
      (''url'', py_or (url_get u) (if truthy doi then doi_url doi else PNone))]"

definition empty_meta_title :: dict where
  "empty_meta_title =
     [(''doi'', PNone), (''authors'', PNone), (''title'', PNone), (''journal'', PNone),
      (''volume'', PNone), (''issue'', PNone), (''pages'', PNone), (''year'', PNone),
      (''url'', PNone)]"

text \<open>
  \<open>fetch_metadata_from_title\<close>, block by block from the last one; \<open>doi\<close> is the local
  variable of that name. The Semantic Scholar block asks by identifier when \<open>doi\<close> is set
  and by title otherwise; it has no completeness test, the fallback for \<open>url\<close> follows it.
\<close>

definition title_from_semantic :: "world \<Rightarrow> dict \<Rightarrow> pyval \<Rightarrow> call list \<Rightarrow> lookup" where
  "title_from_semantic w meta doi tr =
     (let q = (if truthy doi then ByDoi (py_str doi) else ByTitle);
          m = (case w SemanticScholar q of
                 Hit i b u \<Rightarrow>
                   (let fetched_doi = normalize_doi i;
                        doi' = py_or doi fetched_doi
                    in enrich meta (semantic_title_record doi' b u))
               | _ \<Rightarrow> meta)
      in \<lparr>result = Some (if truthy (dict_get m ''doi'') \<and> \<not> truthy (dict_get m ''url'')
                          then AList.update ''url'' (doi_url (dict_get m ''doi'')) m else m),
          trace = tr @ [Call SemanticScholar q m]\<rparr>)"

text \<open>
  DataCite is asked only \<open>if doi\<close>. \<open>doi.lower()\<close> is inside the \<open>try\<close>: on a value
  that is not a string it raises before any request is made.
\<close>

definition title_from_datacite :: "world \<Rightarrow> dict \<Rightarrow> pyval \<Rightarrow> call list \<Rightarrow> lookup" where
  "title_from_datacite w meta doi tr =
     (if truthy doi then
        (case doi of
           PStr d \<Rightarrow>
             (case try_block (w DataCite (ByDoi (lower d))) (datacite_record d) meta of
                Returned m \<Rightarrow>
                  \<lparr>result = Some m, trace = tr @ [Call DataCite (ByDoi (lower d)) m]\<rparr>
              | Continued m \<Rightarrow>
                  title_from_semantic w m doi (tr @ [Call DataCite (ByDoi (lower d)) m]))
         | _ \<Rightarrow> title_from_semantic w meta doi tr)
      else title_from_semantic w meta doi tr)"

text \<open>Europe PMC is asked only \<open>if not doi\<close>; after its merge \<open>doi = meta.get("doi")\<close>.\<close>

definition title_from_europepmc :: "world \<Rightarrow> dict \<Rightarrow> pyval \<Rightarrow> call list \<Rightarrow> lookup" where
  "title_from_europepmc w meta doi tr =
     (if \<not> truthy doi then
        (case w EuropePMC ByTitle of
           Hit i b u \<Rightarrow>
             (let normalized_doi = normalize_doi i;
                  m = enrich meta (europepmc_title_record normalized_doi b u);
                  doi' = dict_get m ''doi''
              in if is_complete m
                 then \<lparr>result = Some m, trace = tr @ [Call EuropePMC ByTitle m]\<rparr>
                 else title_from_datacite w m doi' (tr @ [Call EuropePMC ByTitle m]))
         | _ \<Rightarrow> title_from_datacite w meta doi (tr @ [Call EuropePMC ByTitle meta]))
      else title_from_datacite w meta doi tr)"

text \<open>
  Before the Crossref block \<open>doi = meta.get("doi")\<close>, and the block is entered only
  \<open>if not doi\<close>. Inside it \<open>doi = normalize_doi(item.get("DOI"))\<close> is assigned before
  the authors, the year and the record are built: when one of these raises, the handler
  passes and \<open>doi\<close> keeps the value assigned.
\<close>

definition title_from_crossref :: "world \<Rightarrow> dict \<Rightarrow> call list \<Rightarrow> lookup" where
  "title_from_crossref w meta tr =
     (let doi = dict_get meta ''doi''
      in if \<not> truthy doi then
           (case w Crossref ByTitle of
              Hit i b u \<Rightarrow>
                (let doi' = normalize_doi i;
                     m = enrich meta (crossref_title_record doi' b u)
                 in if is_complete m
                    then \<lparr>result = Some m, trace = tr @ [Call Crossref ByTitle m]\<rparr>
                    else title_from_europepmc w m doi' (tr @ [Call Crossref ByTitle m]))
            | RaisedAfterId i \<Rightarrow>
                title_from_europepmc w meta (normalize_doi i) (tr @ [Call Crossref ByTitle meta])
            | _ \<Rightarrow> title_from_europepmc w meta doi (tr @ [Call Crossref ByTitle meta]))
         else title_from_europepmc w meta doi tr)"

definition title_from_openalex :: "world \<Rightarrow> dict \<Rightarrow> call list \<Rightarrow> lookup" where
  "title_from_openalex w meta tr =
     (case w OpenAlex ByTitle of
        Hit i b u \<Rightarrow>
          (let doi = normalize_doi i;
               m = enrich meta (openalex_title_record doi b u)
           in if is_complete m
              then \<lparr>result = Some m, trace = tr @ [Call OpenAlex ByTitle m]\<rparr>
              else title_from_crossref w m (tr @ [Call OpenAlex ByTitle m]))
      | _ \<Rightarrow> title_from_crossref w meta (tr @ [Call OpenAlex ByTitle meta]))"

definition fetch_metadata_from_title :: "world \<Rightarrow> pyval \<Rightarrow> lookup" where
  "fetch_metadata_from_title w title =
     (case title of
        PStr s \<Rightarrow>
          if strip s = [] then \<lparr>result = None, trace = []\<rparr>
          else title_from_openalex w empty_meta_title []
      | _ \<Rightarrow> \<lparr>result = None, trace = []\<rparr>)"

text \<open>The position of a provider in the title lookup.\<close>

fun title_rank :: "provider \<Rightarrow> nat" where
  "title_rank OpenAlex = 0"
| "title_rank Crossref = 1"
| "title_rank EuropePMC = 2"
| "title_rank DataCite = 3"
| "title_rank SemanticScholar = 4"
| "title_rank Unpaywall = 5"

text \<open>A reply from which the local variable \<open>doi\<close> can receive an identifier.\<close>

fun carries_id :: "reply \<Rightarrow> bool" where
  "carries_id (Hit i b u) = truthy (normalize_doi i)"
| "carries_id (RaisedAfterId i) = truthy (normalize_doi i)"
| "carries_id _ = False"

text \<open>Predicates on the calls of a lookup, used to state what the lookups do.\<close>

definition incomplete_calls :: "call list \<Rightarrow> bool" where
  "incomplete_calls tr = list_all (\<lambda>c. \<not> is_complete (after c)) tr"

definition consulted :: "provider \<Rightarrow> call list \<Rightarrow> bool" where
  "consulted p tr = (p \<in> set (map source tr))"

definition ranked_below :: "nat \<Rightarrow> call list \<Rightarrow> bool" where
  "ranked_below n tr =
     (sorted_wrt (<) (map (\<lambda>c. title_rank (source c)) tr) \<and>
      list_all (\<lambda>c. title_rank (source c) < n) tr)"

text \<open>
  A lookup has stopped at the first complete record: no call before the last one left a
  complete record, and a complete record left by the last call is what the lookup returns.
  In the title lookup the last block, Semantic Scholar, has no completeness test and the
  \<open>url\<close> fallback runs after it.
\<close>

definition stops_doi :: "lookup \<Rightarrow> bool" where
  "stops_doi r =
     (trace r \<noteq> [] \<and> incomplete_calls (butlast (trace r)) \<and>
      (is_complete (after (last (trace r))) \<longrightarrow> result r = Some (after (last (trace r)))))"

definition stops_title :: "lookup \<Rightarrow> bool" where
  "stops_title r =
     (trace r \<noteq> [] \<and> incomplete_calls (butlast (trace r)) \<and>
      (is_complete (after (last (trace r))) \<and>
       (source (last (trace r)) \<noteq> SemanticScholar \<or> truthy (dict_get (after (last (trace r))) ''url''))
       \<longrightarrow> result r = Some (after (last (trace r)))))"

definition id_upstream :: "world \<Rightarrow> bool" where
  "id_upstream w =
     (carries_id (w OpenAlex ByTitle) \<or> carries_id (w Crossref ByTitle) \<or>
      carries_id (w EuropePMC ByTitle))"

text \<open>
  Sample replies. \<open>some_effect\<close> are the fields of one paper, without volume, issue and
  pages; \<open>full_effect\<close> has all of them. In \<open>crossref_malformed\<close> the Crossref title
  search answers with an item whose \<open>DOI\<close> is \<open>10.1/abc\<close> and whose
  \<open>date-parts\<close> list is empty, so that reading the year raises; in \<open>crossref_down\<close>
  the Crossref request itself fails. In both, Europe PMC knows the paper under
  \<open>10.2/xyz\<close> and Semantic Scholar knows its fields.
\<close>

definition some_effect :: biblio where
  "some_effect =
     \<lparr>r_authors = PStr ''Ann Author'', r_title = PStr ''Some Effect'',
      r_journal = PStr ''Journal of Effects'', r_volume = PNone, r_issue = PNone,
      r_pages = PNone, r_year = PInt 2019\<rparr>"

definition full_effect :: biblio where
  "full_effect =
     \<lparr>r_authors = PStr ''Ann Author'', r_title = PStr ''Some Effect'',
      r_journal = PStr ''Journal of Effects'', r_volume = PStr ''12'', r_issue = PStr ''3'',
      r_pages = PStr ''45'', r_year = PInt 2019\<rparr>"

definition crossref_malformed :: world where
  "crossref_malformed p q =
     (if p = Crossref then RaisedAfterId (PStr ''10.1/abc'')
      else if p = EuropePMC then Hit (PStr ''10.2/xyz'') some_effect None
      else if p = SemanticScholar then Hit PNone some_effect None
      else NoResult)"

definition crossref_down :: world where
  "crossref_down p q =
     (if p = Crossref then Raised
      else if p = EuropePMC then Hit (PStr ''10.2/xyz'') some_effect None
      else if p = SemanticScholar then Hit PNone some_effect None
      else NoResult)"

text \<open>
  What the two sample lookups by title find: with Crossref down, the record Europe PMC
  starts (\<open>partial_xyz\<close>) and Semantic Scholar completes by the fallback URL
  (\<open>found_xyz\<close>); with the malformed Crossref reply, \<open>found_abc\<close>.
\<close>

definition partial_xyz :: dict where
  "partial_xyz =
     [(''doi'', PStr ''10.2/xyz''), (''authors'', PStr ''Ann Author''),
      (''title'', PStr ''Some Effect''), (''journal'', PStr ''Journal of Effects''),
      (''volume'', PNone), (''issue'', PNone), (''pages'', PNone), (''year'', PInt 2019),
      (''url'', PNone)]"

definition found_xyz :: dict where
  "found_xyz =
     [(''doi'', PStr ''10.2/xyz''), (''authors'', PStr ''Ann Author''),
      (''title'', PStr ''Some Effect''), (''journal'', PStr ''Journal of Effects''),
      (''volume'', PNone), (''issue'', PNone), (''pages'', PNone), (''year'', PInt 2019),
      (''url'', PStr ''https://doi.org/10.2/xyz'')]"

definition found_abc :: dict where
  "found_abc =
     [(''doi'', PStr ''10.1/abc''), (''authors'', PStr ''Ann Author''),
      (''title'', PStr ''Some Effect''), (''journal'', PStr ''Journal of Effects''),
      (''volume'', PNone), (''issue'', PNone), (''pages'', PNone), (''year'', PInt 2019),
      (''url'', PStr ''https://doi.org/10.1/abc'')]"

definition all_silent :: world where
  "all_silent p q = NoResult"

definition openalex_complete :: world where
  "openalex_complete p q =
     (if p = OpenAlex then Hit (PStr ''https://doi.org/10.1/abc'') full_effect None
      else Hit PNone some_effect None)"

section \<open>Rows of the dataset\<close>

text \<open>
  A row handed to the enrichment functions is a pandas \<open>Series\<close>: column labels with their
  values, modelled like a dict. \<open>pd.isna\<close> holds of \<open>None\<close> and of NaN.
\<close>

definition isna :: "pyval \<Rightarrow> bool" where
  "isna v = (v = PNone \<or> v = PFloat ''nan'')"

definition is_empty :: "pyval \<Rightarrow> bool" where
  "is_empty v =
     (isna v \<or> v = PStr [] \<or> v = PStr ''NaN'' \<or> (case v of PStr s \<Rightarrow> strip s = [] | _ \<Rightarrow> False))"

definition field_mapping :: "string \<Rightarrow> (string \<times> string) list" where
  "field_mapping prefix =
     [(''authors'', prefix @ ''_authors''), (''title'', prefix @ ''_title''),
      (''journal'', prefix @ ''_journal''), (''volume'', prefix @ ''_volume''),
      (''issue'', prefix @ ''_issue''), (''pages'', prefix @ ''_pages''),
      (''year'', prefix @ ''_year'')]"

text \<open>The \<open>for\<close> loop of \<open>enrich_from_metadata\<close> over \<open>field_mapping.items()\<close>.\<close>

fun fill_columns :: "dict \<Rightarrow> dict \<Rightarrow> (string \<times> string) list \<Rightarrow> dict" where
  "fill_columns row metadata [] = row"
| "fill_columns row metadata ((meta_key, col_name) # rest) =
     fill_columns
       (if col_name \<in> set (map fst row) then
          (if is_empty (dict_get row col_name) \<and> truthy (dict_get metadata meta_key)
           then AList.update col_name (dict_get metadata meta_key) row
           else row)
        else row)
       metadata rest"

definition enrich_from_metadata :: "dict \<Rightarrow> string \<Rightarrow> dict option \<Rightarrow> dict" where
  "enrich_from_metadata row prefix metadata =
     (case metadata of
        None \<Rightarrow> row
      | Some md \<Rightarrow> if md = [] then row else fill_columns row md (field_mapping prefix))"

section \<open>Sanity validator\<close>

definition sanity_check_metadata :: "dict \<Rightarrow> string \<Rightarrow> dict option \<Rightarrow> bool" where
  "sanity_check_metadata row prefix metadata =
     (case metadata of
        None \<Rightarrow> False
      | Some md \<Rightarrow>
          if md = [] then False
          else
            (let col_name = prefix @ ''_year''
             in case map_of row col_name of
                  Some v \<Rightarrow>
                    if \<not> is_empty v then
                      (let existing_value = strip (py_str v);
                           fetched_value =
                             strip (py_str (case map_of md ''year'' of
                                              None \<Rightarrow> PStr [] | Some y \<Rightarrow> y))
                       in if fetched_value \<noteq> []
                          then replace existing_value ''.0'' [] = replace fetched_value ''.0'' []
                          else True)
                    else True
                | None \<Rightarrow> True))"

text \<open>
  Following the words of the specification, for comparison with the code: the
  normalization of a trailing \<open>.0\<close> float artifact removes one \<open>.0\<close> at the end of the
  text and nothing else.
\<close>

definition chop_dot0 :: "string \<Rightarrow> string" where
  "chop_dot0 s = (if endswith s ''.0'' then take (length s - 2) s else s)"

text \<open>\<open>metadata.get('year', "")\<close>.\<close>

definition year_or_blank :: "dict \<Rightarrow> pyval" where
  "year_or_blank md = (case map_of md ''year'' of None \<Rightarrow> PStr [] | Some y \<Rightarrow> y)"

text \<open>The text holds \<open>.0\<close> at its end or not at all.\<close>

definition dot0_only_trailing :: "string \<Rightarrow> bool" where
  "dot0_only_trailing s = (\<not> occurs (chop_dot0 s) ''.0'')"

text \<open>Sample rows and candidate records for the sanity check.\<close>

definition row_2020 :: dict where
  "row_2020 = [(''original_title'', PStr ''Some Effect''), (''original_year'', PStr ''2020'')]"

definition candidate_2020 :: dict where
  "candidate_2020 = [(''doi'', PStr ''10.1/abc''), (''year'', PFloat ''2020.0'')]"

definition candidate_2019 :: dict where
  "candidate_2019 = [(''doi'', PStr ''10.1/abc''), (''year'', PStr ''2019'')]"

definition row_inner_dot0 :: dict where
  "row_inner_dot0 = [(''original_year'', PStr ''2.020'')]"

definition candidate_220 :: dict where
  "candidate_220 = [(''doi'', PStr ''10.1/abc''), (''year'', PInt 220)]"

definition candidate_blank_year :: dict where
  "candidate_blank_year = [(''doi'', PStr ''10.1/abc''), (''year'', PStr '' '')]"

section \<open>Deduplication against the master dataset\<close>

text \<open>
  The three key columns hold text. A cell of a frame read from CSV is a string or missing
  (NaN); \<open>row.get(label)\<close> is \<open>None\<close> for a label the row does not have. A frame is its
  column labels and its rows; a cell that a row does not give is NaN, as
  \<open>pd.DataFrame\<close> and \<open>pd.concat\<close> fill it.
\<close>

datatype cell = CNone | CNaN | CStr string

type_synonym series = "(string \<times> cell) list"

record dataframe =
  columns :: "string list"
  rows :: "series list"

datatype error = KeyError string

definition row_get :: "series \<Rightarrow> string \<Rightarrow> cell" where
  "row_get row label = (case map_of row label of None \<Rightarrow> CNone | Some v \<Rightarrow> v)"

definition df_cell :: "series \<Rightarrow> string \<Rightarrow> cell" where
  "df_cell row label = (case map_of row label of None \<Rightarrow> CNaN | Some v \<Rightarrow> v)"

text \<open>
  The elementwise \<open>==\<close> of a column with a scalar: a missing value on either side, NaN
  or \<open>None\<close>, compares unequal to everything, itself included.
\<close>

fun pd_eq :: "cell \<Rightarrow> cell \<Rightarrow> bool" where
  "pd_eq (CStr a) (CStr b) = (a = b)"
| "pd_eq _ _ = False"

definition df_empty :: "dataframe \<Rightarrow> bool" where
  "df_empty df = (rows df = [] \<or> columns df = [])"

definition check_duplicate :: "series \<Rightarrow> dataframe \<Rightarrow> error + bool" where
  "check_duplicate row master_df =
     (if df_empty master_df then Inr False
      else
        (let original_check = row_get row ''original_url'';
             replication_check = row_get row ''replication_url'';
             description_check = row_get row ''description''
         in if ''original_url'' \<notin> set (columns master_df) then Inl (KeyError ''original_url'')
            else if ''replication_url'' \<notin> set (columns master_df)
              then Inl (KeyError ''replication_url'')
            else if ''description'' \<notin> set (columns master_df) then Inl (KeyError ''description'')
            else
              (let matches =
                     filter (\<lambda>m. pd_eq (df_cell m ''original_url'') original_check \<and>
                                  pd_eq (df_cell m ''replication_url'') replication_check \<and>
                                  pd_eq (df_cell m ''description'') description_check)
                       (rows master_df)
               in Inr (length matches > 0))))"

text \<open>
  Step 4 of \<open>ingest_data\<close>: the loop over the processed rows collects \<open>rows_to_append\<close>
  and counts \<open>duplicates_found\<close>; every row is tested against \<open>master_df\<close> as it was
  loaded.
\<close>

fun dedup_loop :: "series list \<Rightarrow> dataframe \<Rightarrow> series list \<Rightarrow> nat \<Rightarrow> error + (series list \<times> nat)" where
  "dedup_loop [] master_df rows_to_append duplicates_found =
     Inr (rows_to_append, duplicates_found)"
| "dedup_loop (row # rest) master_df rows_to_append duplicates_found =
     (case check_duplicate row master_df of
        Inl e \<Rightarrow> Inl e
      | Inr dup \<Rightarrow>
          if dup then dedup_loop rest master_df rows_to_append (duplicates_found + 1)
          else dedup_loop rest master_df (rows_to_append @ [row]) duplicates_found)"

definition pd_concat :: "dataframe \<Rightarrow> dataframe \<Rightarrow> dataframe" where
  "pd_concat a b =
     \<lparr>columns = columns a @ filter (\<lambda>c. c \<notin> set (columns a)) (columns b),
      rows = rows a @ rows b\<rparr>"

text \<open>\<open>reorder_columns\<close>; \<open>valid_columns\<close> is the column list of the data dictionary.\<close>

definition reorder_columns :: "string list \<Rightarrow> dataframe \<Rightarrow> dataframe" where
  "reorder_columns valid_columns df =
     (let columns_in_order = filter (\<lambda>col. col \<in> set (columns df)) valid_columns;
          remaining_columns = filter (\<lambda>col. col \<notin> set columns_in_order) (columns df)
      in \<lparr>columns = columns_in_order @ remaining_columns, rows = rows df\<rparr>)"

text \<open>
  The part of \<open>ingest_data\<close> from step 4 to the reordering of the columns: the updated
  master frame from the processed frame and the master frame.
\<close>

definition ingest_data :: "string list \<Rightarrow> dataframe \<Rightarrow> dataframe \<Rightarrow> error + dataframe" where
  "ingest_data valid_columns processed_df master_df =
     (case dedup_loop (rows processed_df) master_df [] 0 of
        Inl e \<Rightarrow> Inl e
      | Inr (rows_to_append, duplicates_found) \<Rightarrow>
          (let updated_master_df =
                 (if rows_to_append \<noteq> []
                  then pd_concat master_df
                         \<lparr>columns = columns processed_df, rows = rows_to_append\<rparr>
                  else master_df)
           in Inr (reorder_columns valid_columns updated_master_df)))"

text \<open>Two rows agree on the deduplication key.\<close>

definition same_key :: "series \<Rightarrow> series \<Rightarrow> bool" where
  "same_key r1 r2 =
     (row_get r1 ''original_url'' = row_get r2 ''original_url'' \<and>
      row_get r1 ''replication_url'' = row_get r2 ''replication_url'' \<and>
      row_get r1 ''description'' = row_get r2 ''description'')"

text \<open>
  Sample rows: one with both URLs, one whose replication URL cell is empty in the CSV file.
\<close>

definition url_a :: series where
  "url_a = [(''original_url'', CStr ''http://doi.org/10.1/a''),
            (''replication_url'', CStr ''http://doi.org/10.1/b''),
            (''description'', CStr ''first replication'')]"

definition no_replication_url :: series where
  "no_replication_url =
     [(''original_url'', CStr ''http://doi.org/10.1/a''), (''replication_url'', CNaN),
      (''description'', CStr ''first replication'')]"

definition key_columns :: "string list" where
  "key_columns = [''original_url'', ''replication_url'', ''description'']"

section \<open>Properties of the string functions\<close>

lemma lstrip_rstrip:
  assumes "lstrip u = u"
  shows "lstrip (rstrip u) = rstrip u"
proof (cases "rstrip u = []")
  case True
  then show ?thesis by (simp add: lstrip_def)
next
  case False
  have "rev u = takeWhile is_space (rev u) @ dropWhile is_space (rev u)"
    by simp
  then have "u = rstrip u @ rev (takeWhile is_space (rev u))"
    unfolding rstrip_def by (metis rev_append rev_rev_ident)
  with False have hd_eq: "hd (rstrip u) = hd u" and "u \<noteq> []"
    by (metis hd_append2, metis append_is_Nil_conv)
  from assms \<open>u \<noteq> []\<close> have "\<not> is_space (hd u)"
    unfolding lstrip_def by (simp add: dropWhile_eq_self_iff)
  with hd_eq show ?thesis
    unfolding lstrip_def by (simp add: dropWhile_eq_self_iff)
qed

lemma rstrip_idem: "rstrip (rstrip u) = rstrip u"
  by (simp add: rstrip_def)

lemma lstrip_idem: "lstrip (lstrip u) = lstrip u"
  by (simp add: lstrip_def)

lemma strip_idem: "strip (strip s) = strip s"
  by (simp add: strip_def lstrip_rstrip lstrip_idem rstrip_idem)

lemma startswith_append: "startswith t p \<longleftrightarrow> (\<exists>r. t = p @ r)"
  unfolding startswith_def by (metis append_eq_conv_conj append_take_drop_id)

lemma replace_absent: "old \<noteq> [] \<Longrightarrow> \<not> occurs s old \<Longrightarrow> replace s old new = s"
proof (induction s)
  case Nil
  then show ?case by (simp add: replace.simps)
next
  case (Cons c cs)
  then show ?case by (subst replace.simps) simp
qed

lemma replace_leading:
  assumes "old \<noteq> []" "startswith s old" "\<not> occurs (drop (length old) s) old"
  shows "replace s old [] = drop (length old) s"
proof -
  from assms(1,2) have "s \<noteq> []" by (auto simp: startswith_def)
  with assms show ?thesis
    by (subst replace.simps) (simp add: replace_absent)
qed

section \<open>Identifier normalizer: round trips, no-op on bare identifiers\<close>

lemma normalize_doi_not_str: "\<forall>s. v \<noteq> PStr s \<Longrightarrow> normalize_doi v = PNone"
  by (cases v) (simp_all add: normalize_doi_def)

lemma normalize_doi_blank: "strip s = [] \<Longrightarrow> normalize_doi (PStr s) = PNone"
  by (simp add: normalize_doi_def)

lemma normalize_doi_no_prefix:
  assumes "list_all (\<lambda>p. \<not> startswith (strip s) p) known_prefixes"
  shows "normalize_doi (PStr s) = (if strip s = [] then PNone else PStr (strip s))"
  using assms by (simp add: normalize_doi_def known_prefixes_def Let_def)

lemma normalize_doi_bare: "bare d \<Longrightarrow> normalize_doi (PStr d) = PStr d"
  by (simp add: bare_def normalize_doi_no_prefix)

lemma normalize_doi_None: "normalize_doi PNone = PNone"
  by (simp add: normalize_doi_def)

text \<open>
  A string that needs no trimming and starts with no known prefix comes back trimmed, and
  normalizing the result again changes nothing.
\<close>

lemma normalize_doi_trimmed_twice:
  assumes "list_all (\<lambda>p. \<not> startswith (strip s) p) known_prefixes"
  shows "normalize_doi (normalize_doi (PStr s)) = normalize_doi (PStr s)"
  using assms by (simp add: normalize_doi_no_prefix normalize_doi_None strip_idem)

text \<open>
  Claim C5, as the code has it. The three round trips of the specification hold:
  \<open>https://doi.org/10.1/x\<close>, \<open>http://doi.org/10.1/x\<close> and \<open>10.1/x\<close> all normalize to
  \<open>10.1/x\<close>. Normalizing an already-bare identifier (not empty, trimmed, no known prefix
  in front) is a no-op, and normalizing twice equals normalizing once whenever the first
  result is unset or already bare. The result is unset for every blank string and for every
  value that is not a string. Idempotence does not hold for every string: the prefixes are
  tested once, in one \<open>if\<close>/\<open>elif\<close> chain, after the only trimming.
\<close>

theorem normalize_doi_roundtrip:
  "normalize_doi (PStr ''https://doi.org/10.1/x'') = PStr ''10.1/x'' \<and>
   normalize_doi (PStr ''http://doi.org/10.1/x'') = PStr ''10.1/x'' \<and>
   normalize_doi (PStr ''10.1/x'') = PStr ''10.1/x'' \<and>
   (\<forall>d. bare d \<longrightarrow> normalize_doi (PStr d) = PStr d) \<and>
   (\<forall>v. normalize_doi v = PNone \<or> (\<exists>d. normalize_doi v = PStr d \<and> bare d) \<longrightarrow>
        normalize_doi (normalize_doi v) = normalize_doi v) \<and>
   (\<forall>s. strip s = [] \<longrightarrow> normalize_doi (PStr s) = PNone) \<and>
   (\<forall>v. (\<forall>s. v \<noteq> PStr s) \<longrightarrow> normalize_doi v = PNone)"
proof -
  have a: "normalize_doi (PStr ''https://doi.org/10.1/x'') = PStr ''10.1/x''"
    by code_simp
  have b: "normalize_doi (PStr ''http://doi.org/10.1/x'') = PStr ''10.1/x''"
    by code_simp
  have c: "normalize_doi (PStr ''10.1/x'') = PStr ''10.1/x''"
    by code_simp
  have d: "\<forall>v. normalize_doi v = PNone \<or> (\<exists>d. normalize_doi v = PStr d \<and> bare d) \<longrightarrow>
        normalize_doi (normalize_doi v) = normalize_doi v"
    using normalize_doi_bare normalize_doi_None by auto
  show ?thesis
    using a b c d normalize_doi_bare normalize_doi_blank normalize_doi_not_str by blast
qed

theorem normalize_doi_roundtrip_witness:
  "bare ''10.1/x'' \<and> normalize_doi (PStr ''10.1/x'') = PStr ''10.1/x'' \<and>
   normalize_doi (PStr '' https://doi.org/10.1/x '') = PStr ''10.1/x'' \<and>
   normalize_doi (normalize_doi (PStr '' https://doi.org/10.1/x '')) =
     normalize_doi (PStr '' https://doi.org/10.1/x '') \<and>
   strip ''  '' = [] \<and> normalize_doi (PStr ''  '') = PNone \<and>
   (\<forall>s. PInt 7 \<noteq> PStr s) \<and> normalize_doi (PInt 7) = PNone"
proof -
  have b: "bare ''10.1/x''"
    by code_simp
  have n: "normalize_doi (PStr '' https://doi.org/10.1/x '') = PStr ''10.1/x''"
    by code_simp
  have s: "strip ''  '' = []"
    by code_simp
  have i: "\<forall>s. PInt 7 \<noteq> PStr s"
    by simp
  from normalize_doi_roundtrip b n s i show ?thesis
    by metis
qed

text \<open>
  The claim's idempotence for every string fails on a resolver URL wrapped in another one:
  the first pass removes the outer prefix, a second pass removes the inner one.
\<close>

theorem normalize_doi_idempotent_counterexample:
  "normalize_doi (normalize_doi (PStr ''http://doi.org/https://doi.org/10.1/x'')) \<noteq>
   normalize_doi (PStr ''http://doi.org/https://doi.org/10.1/x'')"
  by code_simp

section \<open>Identifier normalizer: what follows the prefix\<close>

text \<open>
  When the prefix text does not occur again behind the leading prefix, the result is the
  trimmed input without that prefix, every later character kept (unset when nothing is
  left).
\<close>

lemma normalize_doi_leading_prefix:
  assumes "p \<in> set known_prefixes" "startswith (strip s) p"
    and "\<not> occurs (drop (length p) (strip s)) p"
  shows "normalize_doi (PStr s) =
          (if drop (length p) (strip s) = [] then PNone else PStr (drop (length p) (strip s)))"
proof -
  from assms(1,2) have ne: "strip s \<noteq> []"
    by (auto simp: known_prefixes_def startswith_def)
  have x: "\<not> (startswith t ''http://doi.org/'' \<and> startswith t ''https://doi.org/'')"
    "\<not> (startswith t ''http://doi.org/'' \<and> startswith t ''http://dx.doi.org/'')"
    "\<not> (startswith t ''http://doi.org/'' \<and> startswith t ''https://dx.doi.org/'')"
    "\<not> (startswith t ''https://doi.org/'' \<and> startswith t ''http://dx.doi.org/'')"
    "\<not> (startswith t ''https://doi.org/'' \<and> startswith t ''https://dx.doi.org/'')"
    "\<not> (startswith t ''http://dx.doi.org/'' \<and> startswith t ''https://dx.doi.org/'')" for t
    by (auto simp: startswith_append)
  from assms(1) consider "p = ''http://doi.org/''" | "p = ''https://doi.org/''"
    | "p = ''http://dx.doi.org/''" | "p = ''https://dx.doi.org/''"
    by (auto simp: known_prefixes_def)
  then show ?thesis
  proof cases
    case 1
    with assms ne show ?thesis
      using replace_leading[of p "strip s"] by (simp add: normalize_doi_def Let_def)
  next
    case 2
    with assms ne x[of "strip s"] show ?thesis
      using replace_leading[of p "strip s"] by (simp add: normalize_doi_def Let_def)
  next
    case 3
    with assms ne x[of "strip s"] show ?thesis
      using replace_leading[of p "strip s"] by (simp add: normalize_doi_def Let_def)
  next
    case 4
    with assms ne x[of "strip s"] show ?thesis
      using replace_leading[of p "strip s"] by (simp add: normalize_doi_def Let_def)
  qed
qed

text \<open>
  Claim C6 at an input where the prefix text occurs a second time, inside the identifier:
  the input starts with the known prefix \<open>http://doi.org/\<close>, what follows the prefix is
  \<open>10.1/http://doi.org/x\<close>, and the normalizer returns \<open>10.1/x\<close>:
  \<open>str.replace\<close> removes every occurrence, not only the leading one.
\<close>

theorem normalize_doi_inner_prefix:
  "startswith ''http://doi.org/10.1/http://doi.org/x'' ''http://doi.org/'' \<and>
   drop (length ''http://doi.org/'') ''http://doi.org/10.1/http://doi.org/x'' =
     ''10.1/http://doi.org/x'' \<and>
   normalize_doi (PStr ''http://doi.org/10.1/http://doi.org/x'') = PStr ''10.1/x''"
  by code_simp

section \<open>The merge step fills only what is empty\<close>

lemma dict_get_update:
  "dict_get (AList.update k v d) k' = (if k' = k then v else dict_get d k')"
  by (simp add: dict_get_def update_conv')

lemma enrich_items_keeps:
  "\<not> unset_like (dict_get c k) \<Longrightarrow> dict_get (enrich_items c p) k = dict_get c k"
proof (induction p arbitrary: c)
  case Nil
  then show ?case by simp
next
  case (Cons kv p)
  obtain k' v' where kv: "kv = (k', v')" by (cases kv)
  let ?c = "if unset_like (dict_get c k') \<and> \<not> unset_like v' then AList.update k' v' c else c"
  from Cons.prems have same: "dict_get ?c k = dict_get c k"
    by (auto simp: dict_get_update)
  with Cons.prems have "\<not> unset_like (dict_get ?c k)" by simp
  from Cons.IH[OF this] same show ?case by (simp add: kv)
qed

lemma enrich_items_change:
  "map_of (enrich_items c p) k = map_of c k \<or>
   (unset_like (dict_get c k) \<and>
    (\<exists>v. map_of (enrich_items c p) k = Some v \<and> \<not> unset_like v \<and> (k, v) \<in> set p))"
proof (induction p arbitrary: c)
  case Nil
  then show ?case by simp
next
  case (Cons kv p)
  obtain k' v' where kv: "kv = (k', v')" by (cases kv)
  let ?c = "if unset_like (dict_get c k') \<and> \<not> unset_like v' then AList.update k' v' c else c"
  have step: "enrich_items c (kv # p) = enrich_items ?c p" by (simp add: kv)
  show ?case
  proof (cases "unset_like (dict_get c k') \<and> \<not> unset_like v' \<and> k = k'")
    case False
    then have "map_of ?c k = map_of c k" "dict_get ?c k = dict_get c k"
      by (auto simp: update_conv' dict_get_update)
    with Cons.IH[of ?c] show ?thesis unfolding step by auto
  next
    case True
    then have c: "?c = AList.update k v' c" by simp
    then have m: "map_of ?c k = Some v'" by (simp add: update_conv')
    then have "dict_get ?c k = v'" by (simp add: dict_get_def)
    with True have "\<not> unset_like (dict_get ?c k)" by simp
    with Cons.IH[of ?c] m have "map_of (enrich_items ?c p) k = Some v'" by auto
    with True show ?thesis unfolding step by (auto simp: kv)
  qed
qed

text \<open>
  Claim C1. Merging a provider result \<open>p\<close> into the running record \<open>m\<close>: a field that
  holds a value other than \<open>None\<close>, \<open>""\<close> and \<open>"NaN"\<close> keeps it, whatever \<open>p\<close>
  gives for that field; and a field that differs after the merge was unset or empty before
  and now holds a non-empty value that \<open>p\<close> gave for it.
\<close>

theorem enrich_fill_only_if_empty:
  "(map_of m k = Some v \<and> \<not> unset_like v \<longrightarrow> map_of (enrich m p) k = Some v) \<and>
   (map_of (enrich m p) k \<noteq> map_of m k \<longrightarrow>
      unset_like (dict_get m k) \<and>
      (\<exists>v'. map_of (enrich m p) k = Some v' \<and> \<not> unset_like v' \<and> (k, v') \<in> set p))"
proof (cases "p = []")
  case True
  then show ?thesis by (simp add: enrich_def)
next
  case False
  then have e: "enrich m p = enrich_items m p" by (simp add: enrich_def)
  from enrich_items_change[of m p k] show ?thesis
    unfolding e by (auto simp: dict_get_def)
qed

theorem enrich_fill_only_if_empty_witness:
  "map_of [(''title'', PStr ''A''), (''year'', PNone)] ''title'' = Some (PStr ''A'') \<and>
   \<not> unset_like (PStr ''A'') \<and>
   map_of (enrich [(''title'', PStr ''A''), (''year'', PNone)]
                  [(''title'', PStr ''B''), (''year'', PInt 2020)]) ''title'' = Some (PStr ''A'') \<and>
   map_of (enrich [(''title'', PStr ''A''), (''year'', PNone)]
                  [(''title'', PStr ''B''), (''year'', PInt 2020)]) ''year'' \<noteq>
     map_of [(''title'', PStr ''A''), (''year'', PNone)] ''year'' \<and>
   unset_like (dict_get [(''title'', PStr ''A''), (''year'', PNone)] ''year'') \<and>
   map_of (enrich [(''title'', PStr ''A''), (''year'', PNone)]
                  [(''title'', PStr ''B''), (''year'', PInt 2020)]) ''year'' = Some (PInt 2020)"
proof -
  let ?m = "[(''title'', PStr ''A''), (''year'', PNone)]"
  let ?p = "[(''title'', PStr ''B''), (''year'', PInt 2020)]"
  have a: "map_of ?m ''title'' = Some (PStr ''A'') \<and> \<not> unset_like (PStr ''A'')"
    by (simp add: unset_like_def)
  have b: "map_of (enrich ?m ?p) ''year'' \<noteq> map_of ?m ''year''"
    by (simp add: enrich_def unset_like_def dict_get_def)
  have c: "map_of (enrich ?m ?p) ''year'' = Some (PInt 2020)"
    by (simp add: enrich_def unset_like_def dict_get_def)
  from enrich_fill_only_if_empty[of ?m "''title''" "PStr ''A''" ?p]
       enrich_fill_only_if_empty[of ?m "''year''" "PNone" ?p] a b c
  show ?thesis by blast
qed

lemma fill_columns_keeps:
  "map_of row c = Some v \<Longrightarrow> \<not> is_empty v \<Longrightarrow> map_of (fill_columns row md fm) c = Some v"
proof (induction fm arbitrary: row)
  case Nil
  then show ?case by simp
next
  case (Cons kc fm)
  obtain meta_key col_name where kc: "kc = (meta_key, col_name)" by (cases kc)
  let ?row = "if col_name \<in> set (map fst row) then
                (if is_empty (dict_get row col_name) \<and> truthy (dict_get md meta_key)
                 then AList.update col_name (dict_get md meta_key) row else row)
              else row"
  from Cons.prems have "map_of ?row c = Some v"
    by (auto simp: update_conv' dict_get_def)
  from Cons.IH[OF this Cons.prems(2)] show ?case
    by (simp add: kc)
qed

text \<open>
  The same policy one level up, where the metadata of a lookup is folded into a row: a
  cell that is not empty in the sense of \<open>is_empty\<close> is kept. At this level a cell of
  blanks and a NaN cell count as empty as well.
\<close>

lemma enrich_from_metadata_keeps:
  "map_of row c = Some v \<Longrightarrow> \<not> is_empty v \<Longrightarrow>
   map_of (enrich_from_metadata row prefix metadata) c = Some v"
  by (auto simp: enrich_from_metadata_def fill_columns_keeps split: option.splits)

section \<open>The merge step is idempotent\<close>

lemma enrich_items_nothing:
  "\<forall>(k, v) \<in> set p. unset_like v \<or> \<not> unset_like (dict_get c k) \<Longrightarrow> enrich_items c p = c"
  by (induction p) auto

lemma enrich_items_filled:
  "(k, v) \<in> set p \<Longrightarrow> unset_like v \<or> \<not> unset_like (dict_get (enrich_items c p) k)"
proof (induction p arbitrary: c)
  case Nil
  then show ?case by simp
next
  case (Cons kv p)
  obtain k' v' where kv: "kv = (k', v')" by (cases kv)
  let ?c = "if unset_like (dict_get c k') \<and> \<not> unset_like v' then AList.update k' v' c else c"
  have step: "enrich_items c (kv # p) = enrich_items ?c p" by (simp add: kv)
  show ?case
  proof (cases "(k, v) = kv")
    case True
    show ?thesis
    proof (cases "unset_like v")
      case False
      with True kv have "\<not> unset_like (dict_get ?c k)"
        by (auto simp: dict_get_update)
      then show ?thesis unfolding step by (simp add: enrich_items_keeps)
    qed simp
  next
    case False
    with Cons.prems have "(k, v) \<in> set p" by simp
    from Cons.IH[OF this] show ?thesis unfolding step .
  qed
qed

text \<open>
  Claim C9. Merging the same partial record a second time changes nothing:
  \<open>enrich (enrich m p) p = enrich m p\<close>.
\<close>

theorem enrich_idempotent: "enrich (enrich m p) p = enrich m p"
proof (cases "p = []")
  case True
  then show ?thesis by (simp add: enrich_def)
next
  case False
  have "enrich_items (enrich_items m p) p = enrich_items m p"
    by (rule enrich_items_nothing) (use enrich_items_filled in auto)
  with False show ?thesis by (simp add: enrich_def)
qed

section \<open>Sample lookups\<close>

lemmas record_defs = openalex_doi_record_def datacite_record_def crossref_doi_record_def
  unpaywall_record_def europepmc_doi_record_def semantic_doi_record_def
  openalex_title_record_def crossref_title_record_def europepmc_title_record_def
  semantic_title_record_def empty_meta_doi_def empty_meta_title_def
  some_effect_def full_effect_def

lemmas dict_defs = enrich_def is_complete_def dict_get_def unset_like_def py_or_def
  url_get_def doi_url_def

lemma try_block_simps:
  "try_block NoResult mk m = Continued m"
  "try_block Raised mk m = Continued m"
  "try_block (RaisedAfterId i) mk m = Continued m"
  "try_block (Hit i b u) mk m =
     (if is_complete (enrich m (mk i b u)) then Returned (enrich m (mk i b u))
      else Continued (enrich m (mk i b u)))"
  by (simp_all add: try_block_def Let_def)

lemma title_from_openalex_Hit:
  assumes "w OpenAlex ByTitle = Hit i b u"
    and "enrich meta (openalex_title_record (normalize_doi i) b u) = m"
  shows "title_from_openalex w meta tr =
          (if is_complete m then \<lparr>result = Some m, trace = tr @ [Call OpenAlex ByTitle m]\<rparr>
           else title_from_crossref w m (tr @ [Call OpenAlex ByTitle m]))"
  using assms by (simp add: title_from_openalex_def Let_def)

lemma strip_sample:
  "strip ''10.1/abc'' = ''10.1/abc''" "strip ''10.1/x'' = ''10.1/x''"
  "strip ''Some Effect'' = ''Some Effect''"
  by code_simp+

lemma normalize_doi_sample:
  "normalize_doi (PStr ''https://doi.org/10.1/abc'') = PStr ''10.1/abc''"
  "normalize_doi (PStr ''10.1/abc'') = PStr ''10.1/abc''"
  "normalize_doi (PStr ''10.2/xyz'') = PStr ''10.2/xyz''"
  by code_simp+

lemma complete_by_doi:
  "is_complete (enrich empty_meta_doi (openalex_doi_record ''10.1/abc'' i full_effect None))"
  by (simp add: record_defs dict_defs)

lemma complete_by_title:
  "is_complete (enrich empty_meta_title (openalex_title_record (PStr ''10.1/abc'') full_effect None))"
  by (simp add: record_defs dict_defs)

lemma openalex_complete_by_doi:
  "fetch_metadata_from_doi openalex_complete (PStr ''10.1/abc'') =
     \<lparr>result = Some (enrich empty_meta_doi
                        (openalex_doi_record ''10.1/abc'' (PStr ''https://doi.org/10.1/abc'') full_effect None)),
      trace = [Call OpenAlex (ByDoi ''10.1/abc'')
                 (enrich empty_meta_doi
                    (openalex_doi_record ''10.1/abc'' (PStr ''https://doi.org/10.1/abc'') full_effect None))]\<rparr>"
proof -
  have "try_block (openalex_complete OpenAlex (ByDoi ''10.1/abc'')) (openalex_doi_record ''10.1/abc'')
          empty_meta_doi =
        Returned (enrich empty_meta_doi
                    (openalex_doi_record ''10.1/abc'' (PStr ''https://doi.org/10.1/abc'') full_effect None))"
    by (simp add: openalex_complete_def try_block_simps complete_by_doi)
  then show ?thesis
    by (simp add: fetch_metadata_from_doi_def doi_from_openalex_def strip_sample)
qed

lemma openalex_complete_by_title:
  "fetch_metadata_from_title openalex_complete (PStr ''Some Effect'') =
     \<lparr>result = Some (enrich empty_meta_title (openalex_title_record (PStr ''10.1/abc'') full_effect None)),
      trace = [Call OpenAlex ByTitle
                 (enrich empty_meta_title (openalex_title_record (PStr ''10.1/abc'') full_effect None))]\<rparr>"
proof -
  let ?m = "enrich empty_meta_title (openalex_title_record (PStr ''10.1/abc'') full_effect None)"
  have w: "openalex_complete OpenAlex ByTitle = Hit (PStr ''https://doi.org/10.1/abc'') full_effect None"
    by (simp add: openalex_complete_def)
  have "enrich empty_meta_title
          (openalex_title_record (normalize_doi (PStr ''https://doi.org/10.1/abc'')) full_effect None) = ?m"
    by (simp only: normalize_doi_sample)
  from title_from_openalex_Hit[where w = openalex_complete, OF w this]
  have "title_from_openalex openalex_complete empty_meta_title [] =
          \<lparr>result = Some ?m, trace = [] @ [Call OpenAlex ByTitle ?m]\<rparr>"
    by (simp only: complete_by_title if_True)
  then show ?thesis
    by (simp add: fetch_metadata_from_title_def strip_sample)
qed

section \<open>A complete record ends the lookup\<close>

lemma try_block_Returned: "try_block rp mk meta = Returned m \<Longrightarrow> is_complete m"
  by (auto simp: try_block_def Let_def split: reply.splits if_splits)

lemma try_block_Continued:
  "\<not> is_complete meta \<Longrightarrow> try_block rp mk meta = Continued m \<Longrightarrow> \<not> is_complete m"
  by (auto simp: try_block_def Let_def split: reply.splits if_splits)

lemma incomplete_calls_snoc:
  "incomplete_calls (tr @ [c]) \<longleftrightarrow> incomplete_calls tr \<and> \<not> is_complete (after c)"
  by (simp add: incomplete_calls_def)

lemma stops_doi_last:
  "incomplete_calls tr \<Longrightarrow> stops_doi \<lparr>result = Some m, trace = tr @ [Call p q m]\<rparr>"
  by (simp add: stops_doi_def)

lemma doi_from_semantic_stops:
  assumes "\<not> is_complete meta" "incomplete_calls tr"
  shows "stops_doi (doi_from_semantic w doi meta tr)"
  using assms unfolding doi_from_semantic_def
  by (auto simp: stops_doi_def split: step.splits dest: try_block_Continued)

lemma doi_from_europepmc_stops:
  assumes "\<not> is_complete meta" "incomplete_calls tr"
  shows "stops_doi (doi_from_europepmc w doi meta tr)"
  using assms unfolding doi_from_europepmc_def
  by (auto simp: stops_doi_last incomplete_calls_snoc split: step.splits
      dest: try_block_Continued intro!: doi_from_semantic_stops)

lemma doi_from_unpaywall_stops:
  assumes "\<not> is_complete meta" "incomplete_calls tr"
  shows "stops_doi (doi_from_unpaywall w doi meta tr)"
  using assms unfolding doi_from_unpaywall_def
  by (auto simp: stops_doi_last incomplete_calls_snoc split: step.splits
      dest: try_block_Continued intro!: doi_from_europepmc_stops)

lemma doi_from_crossref_stops:
  assumes "\<not> is_complete meta" "incomplete_calls tr"
  shows "stops_doi (doi_from_crossref w doi meta tr)"
  using assms unfolding doi_from_crossref_def
  by (auto simp: stops_doi_last incomplete_calls_snoc split: step.splits
      dest: try_block_Continued intro!: doi_from_unpaywall_stops)

lemma doi_from_datacite_stops:
  assumes "\<not> is_complete meta" "incomplete_calls tr"
  shows "stops_doi (doi_from_datacite w doi meta tr)"
  using assms unfolding doi_from_datacite_def
  by (auto simp: stops_doi_last incomplete_calls_snoc split: step.splits
      dest: try_block_Continued intro!: doi_from_crossref_stops)

lemma doi_from_openalex_stops:
  assumes "\<not> is_complete meta" "incomplete_calls tr"
  shows "stops_doi (doi_from_openalex w doi meta tr)"
  using assms unfolding doi_from_openalex_def
  by (auto simp: stops_doi_last incomplete_calls_snoc split: step.splits
      dest: try_block_Continued intro!: doi_from_datacite_stops)

lemma empty_meta_doi_incomplete: "\<not> is_complete empty_meta_doi"
  by (simp add: is_complete_def empty_meta_doi_def dict_get_def unset_like_def)

lemma empty_meta_title_incomplete: "\<not> is_complete empty_meta_title"
  by (simp add: is_complete_def empty_meta_title_def dict_get_def unset_like_def)

lemma fetch_metadata_from_doi_stops:
  "trace (fetch_metadata_from_doi w v) = [] \<or> stops_doi (fetch_metadata_from_doi w v)"
  unfolding fetch_metadata_from_doi_def
  by (auto split: pyval.splits
      simp: doi_from_openalex_stops empty_meta_doi_incomplete incomplete_calls_def)

lemma stops_title_last:
  "incomplete_calls tr \<Longrightarrow> stops_title \<lparr>result = Some m, trace = tr @ [Call p q m]\<rparr>"
  by (simp add: stops_title_def)

lemma title_from_semantic_stops:
  assumes "incomplete_calls tr"
  shows "stops_title (title_from_semantic w meta doi tr)"
  using assms unfolding title_from_semantic_def
  by (auto simp: stops_title_def Let_def)

lemma title_from_datacite_stops:
  assumes "\<not> is_complete meta" "incomplete_calls tr"
  shows "stops_title (title_from_datacite w meta doi tr)"
  using assms unfolding title_from_datacite_def
  by (auto simp: stops_title_last incomplete_calls_snoc split: step.splits pyval.splits
      dest: try_block_Continued intro!: title_from_semantic_stops)

lemma title_from_europepmc_stops:
  assumes "\<not> is_complete meta" "incomplete_calls tr"
  shows "stops_title (title_from_europepmc w meta doi tr)"
  using assms unfolding title_from_europepmc_def
  by (auto simp: stops_title_last incomplete_calls_snoc Let_def split: reply.splits
      intro!: title_from_datacite_stops)

lemma title_from_crossref_stops:
  assumes "\<not> is_complete meta" "incomplete_calls tr"
  shows "stops_title (title_from_crossref w meta tr)"
  using assms unfolding title_from_crossref_def
  by (auto simp: stops_title_last incomplete_calls_snoc Let_def split: reply.splits
      intro!: title_from_europepmc_stops)

lemma title_from_openalex_stops:
  assumes "\<not> is_complete meta" "incomplete_calls tr"
  shows "stops_title (title_from_openalex w meta tr)"
  using assms unfolding title_from_openalex_def
  by (auto simp: stops_title_last incomplete_calls_snoc Let_def split: reply.splits
      intro!: title_from_crossref_stops)

lemma fetch_metadata_from_title_stops:
  "trace (fetch_metadata_from_title w v) = [] \<or> stops_title (fetch_metadata_from_title w v)"
  unfolding fetch_metadata_from_title_def
  by (auto split: pyval.splits
      simp: title_from_openalex_stops empty_meta_title_incomplete incomplete_calls_def)

lemma complete_is_last:
  assumes "tr \<noteq> []" "incomplete_calls (butlast tr)" "i < length tr" "is_complete (after (tr ! i))"
  shows "Suc i = length tr \<and> tr ! i = last tr"
proof -
  have "\<not> i < length (butlast tr)"
  proof
    assume l: "i < length (butlast tr)"
    then have "butlast tr ! i \<in> set (butlast tr)" by simp
    with assms(2) have "\<not> is_complete (after (butlast tr ! i))"
      by (simp add: incomplete_calls_def list_all_iff)
    with l assms(4) show False by (simp add: nth_butlast)
  qed
  with assms(1,3) have e: "Suc i = length tr" by simp
  then have "i = length tr - 1" by simp
  with assms(1) e show ?thesis by (simp add: last_conv_nth)
qed

text \<open>
  Claim C3. In both lookups, if the running record is complete after the block of the
  \<open>i\<close>-th call, that call is the last one of the lookup: no later provider is asked.
  The complete record is returned as it is (in the title lookup, after the last block
  Semantic Scholar the \<open>url\<close> fallback still runs, and leaves a record alone whose
  \<open>url\<close> is true). With \<open>i = 0\<close>: a first provider that alone completes the record
  is the only one consulted.
\<close>

theorem complete_record_ends_lookup:
  fixes w w' :: world and v t :: pyval
  defines "r \<equiv> fetch_metadata_from_doi w v"
    and "r' \<equiv> fetch_metadata_from_title w' t"
  shows "(i < length (trace r) \<and> is_complete (after (trace r ! i)) \<longrightarrow>
            Suc i = length (trace r) \<and> result r = Some (after (trace r ! i))) \<and>
         (j < length (trace r') \<and> is_complete (after (trace r' ! j)) \<longrightarrow>
            Suc j = length (trace r') \<and>
            (source (trace r' ! j) \<noteq> SemanticScholar \<or> truthy (dict_get (after (trace r' ! j)) ''url'')
               \<longrightarrow> result r' = Some (after (trace r' ! j))))"
proof (intro conjI impI)
  assume a: "i < length (trace r) \<and> is_complete (after (trace r ! i))"
  then have "trace r \<noteq> []" by auto
  with fetch_metadata_from_doi_stops[of w v] have s: "stops_doi r" by (simp add: r_def)
  with a have l: "Suc i = length (trace r) \<and> trace r ! i = last (trace r)"
    by (intro complete_is_last) (auto simp: stops_doi_def)
  then show "Suc i = length (trace r)" ..
  from s a l show "result r = Some (after (trace r ! i))" by (simp add: stops_doi_def)
next
  assume a: "j < length (trace r') \<and> is_complete (after (trace r' ! j))"
  then have "trace r' \<noteq> []" by auto
  with fetch_metadata_from_title_stops[of w' t] have s: "stops_title r'" by (simp add: r'_def)
  with a have l: "Suc j = length (trace r') \<and> trace r' ! j = last (trace r')"
    by (intro complete_is_last) (auto simp: stops_title_def)
  then show "Suc j = length (trace r')" ..
  assume "source (trace r' ! j) \<noteq> SemanticScholar \<or> truthy (dict_get (after (trace r' ! j)) ''url'')"
  with s a l show "result r' = Some (after (trace r' ! j))" by (simp add: stops_title_def)
qed

theorem complete_record_ends_lookup_witness:
  "(0 < length (trace (fetch_metadata_from_doi openalex_complete (PStr ''10.1/abc''))) \<and>
    is_complete (after (trace (fetch_metadata_from_doi openalex_complete (PStr ''10.1/abc'')) ! 0))) \<and>
   Suc 0 = length (trace (fetch_metadata_from_doi openalex_complete (PStr ''10.1/abc''))) \<and>
   result (fetch_metadata_from_doi openalex_complete (PStr ''10.1/abc'')) =
     Some (after (trace (fetch_metadata_from_doi openalex_complete (PStr ''10.1/abc'')) ! 0)) \<and>
   (0 < length (trace (fetch_metadata_from_title openalex_complete (PStr ''Some Effect''))) \<and>
    is_complete (after (trace (fetch_metadata_from_title openalex_complete (PStr ''Some Effect'')) ! 0))) \<and>
   source (trace (fetch_metadata_from_title openalex_complete (PStr ''Some Effect'')) ! 0) \<noteq> SemanticScholar \<and>
   Suc 0 = length (trace (fetch_metadata_from_title openalex_complete (PStr ''Some Effect''))) \<and>
   result (fetch_metadata_from_title openalex_complete (PStr ''Some Effect'')) =
     Some (after (trace (fetch_metadata_from_title openalex_complete (PStr ''Some Effect'')) ! 0))"
proof -
  let ?r = "fetch_metadata_from_doi openalex_complete (PStr ''10.1/abc'')"
  let ?r' = "fetch_metadata_from_title openalex_complete (PStr ''Some Effect'')"
  have a: "0 < length (trace ?r) \<and> is_complete (after (trace ?r ! 0))"
    by (simp add: openalex_complete_by_doi complete_by_doi)
  have c: "0 < length (trace ?r') \<and> is_complete (after (trace ?r' ! 0))"
    by (simp add: openalex_complete_by_title complete_by_title)
  have d: "source (trace ?r' ! 0) \<noteq> SemanticScholar"
    by (simp add: openalex_complete_by_title)
  from complete_record_ends_lookup
         [where i = 0 and j = 0 and w = openalex_complete and w' = openalex_complete
            and v = "PStr ''10.1/abc''" and t = "PStr ''Some Effect''"]
       a c d
  show ?thesis by blast
qed

section \<open>The order of the providers\<close>

lemma doi_from_openalex_order:
  "map source (trace (doi_from_openalex w doi meta [])) =
     take (length (trace (doi_from_openalex w doi meta []))) doi_order \<and>
   (length (trace (doi_from_openalex w doi meta [])) = 6 \<or>
    is_complete (after (last (trace (doi_from_openalex w doi meta [])))))"
  by (auto simp: doi_from_openalex_def doi_from_datacite_def doi_from_crossref_def
      doi_from_unpaywall_def doi_from_europepmc_def doi_from_semantic_def doi_order_def
      split: step.splits dest: try_block_Returned)

lemma ranked_below_snoc:
  "ranked_below n tr \<Longrightarrow> n \<le> title_rank p \<Longrightarrow> title_rank p < n' \<Longrightarrow>
   ranked_below n' (tr @ [Call p q m])"
  by (auto simp: ranked_below_def sorted_wrt_append list_all_iff)

lemma ranked_below_mono: "ranked_below n tr \<Longrightarrow> n \<le> n' \<Longrightarrow> ranked_below n' tr"
  by (auto simp: ranked_below_def list_all_iff)

lemma title_from_semantic_ranked:
  "ranked_below 4 tr \<Longrightarrow> ranked_below 5 (trace (title_from_semantic w meta doi tr))"
  by (simp add: title_from_semantic_def Let_def ranked_below_snoc)

lemma title_from_datacite_ranked:
  "ranked_below 3 tr \<Longrightarrow> ranked_below 5 (trace (title_from_datacite w meta doi tr))"
  unfolding title_from_datacite_def
  by (auto split: step.splits pyval.splits
      intro!: title_from_semantic_ranked ranked_below_snoc[where n = 3 and n' = 4]
              ranked_below_snoc[where n = 3 and n' = 5]
      intro: ranked_below_mono)

lemma title_from_europepmc_ranked:
  "ranked_below 2 tr \<Longrightarrow> ranked_below 5 (trace (title_from_europepmc w meta doi tr))"
  unfolding title_from_europepmc_def
  by (auto simp: Let_def split: reply.splits
      intro!: title_from_datacite_ranked ranked_below_snoc[where n = 2 and n' = 3]
              ranked_below_snoc[where n = 2 and n' = 5]
      intro: ranked_below_mono)

lemma title_from_crossref_ranked:
  "ranked_below 1 tr \<Longrightarrow> ranked_below 5 (trace (title_from_crossref w meta tr))"
  unfolding title_from_crossref_def
  by (auto simp: Let_def split: reply.splits
      intro!: title_from_europepmc_ranked ranked_below_snoc[where n = 1 and n' = 2]
              ranked_below_snoc[where n = 1 and n' = 5]
      intro: ranked_below_mono)

lemma title_from_openalex_ranked:
  "ranked_below 0 tr \<Longrightarrow> ranked_below 5 (trace (title_from_openalex w meta tr))"
  unfolding title_from_openalex_def
  by (auto simp: Let_def split: reply.splits
      intro!: title_from_crossref_ranked ranked_below_snoc[where n = 0 and n' = 1]
              ranked_below_snoc[where n = 0 and n' = 5]
      intro: ranked_below_mono)

lemma ranked_below_Nil: "ranked_below n []"
  by (simp add: ranked_below_def)

lemma fetch_metadata_from_title_ranked:
  "ranked_below 5 (trace (fetch_metadata_from_title w t))"
  unfolding fetch_metadata_from_title_def
  by (auto split: pyval.splits simp: ranked_below_Nil intro!: title_from_openalex_ranked)

lemma ranked_below_length: "ranked_below n tr \<Longrightarrow> length tr \<le> n"
proof -
  assume r: "ranked_below n tr"
  let ?xs = "map (\<lambda>c. title_rank (source c)) tr"
  from r have "sorted_wrt (<) ?xs" and b: "set ?xs \<subseteq> {..<n}"
    by (auto simp: ranked_below_def list_all_iff)
  then have "distinct ?xs" by (simp add: strict_sorted_iff)
  then have "card (set ?xs) = length ?xs" by (rule distinct_card)
  moreover from b have "card (set ?xs) \<le> card {..<n}" by (intro card_mono) auto
  ultimately have "length ?xs \<le> n" by simp
  then show ?thesis by simp
qed

lemma consulted_simps:
  "consulted p [] = False"
  "consulted p (tr @ [Call p' q m]) = (consulted p tr \<or> p = p')"
  by (auto simp: consulted_def)

lemma enrich_truthy_origin:
  assumes "truthy (dict_get (enrich meta new) k)"
  shows "truthy (dict_get meta k) \<or> (\<exists>v. (k, v) \<in> set new \<and> truthy v)"
proof (cases "new = []")
  case True
  with assms show ?thesis by (simp add: enrich_def)
next
  case False
  then have e: "enrich meta new = enrich_items meta new" by (simp add: enrich_def)
  from enrich_items_change[of meta new k] assms show ?thesis
    unfolding e by (auto simp: dict_get_def)
qed

lemma title_record_doi:
  "(''doi'', v) \<in> set (openalex_title_record d b u) \<Longrightarrow> v = d"
  "(''doi'', v) \<in> set (crossref_title_record d b u) \<Longrightarrow> v = d"
  "(''doi'', v) \<in> set (europepmc_title_record d b u) \<Longrightarrow> v = d"
  by (auto simp: openalex_title_record_def crossref_title_record_def europepmc_title_record_def)

lemma title_from_semantic_datacite:
  "consulted DataCite (trace (title_from_semantic w meta doi tr)) \<Longrightarrow>
   consulted DataCite tr"
  by (auto simp: title_from_semantic_def Let_def consulted_simps)

lemma title_from_datacite_datacite:
  "consulted DataCite (trace (title_from_datacite w meta doi tr)) \<Longrightarrow>
   consulted DataCite tr \<or> truthy doi"
  unfolding title_from_datacite_def
  by (auto simp: consulted_simps split: if_splits step.splits pyval.splits
      dest: title_from_semantic_datacite)

lemma title_from_europepmc_datacite:
  assumes "truthy doi \<longrightarrow> id_upstream w" "truthy (dict_get meta ''doi'') \<longrightarrow> id_upstream w"
    and d: "consulted DataCite (trace (title_from_europepmc w meta doi tr))"
  shows "consulted DataCite tr \<or> id_upstream w"
proof (cases "truthy doi")
  case True
  with assms(1) show ?thesis by simp
next
  case False
  show ?thesis
  proof (cases "w EuropePMC ByTitle")
    case (Hit i b u)
    let ?m = "enrich meta (europepmc_title_record (normalize_doi i) b u)"
    have up: "truthy (dict_get ?m ''doi'') \<longrightarrow> id_upstream w"
    proof
      assume "truthy (dict_get ?m ''doi'')"
      from enrich_truthy_origin[OF this] assms(2) Hit show "id_upstream w"
        by (auto simp: id_upstream_def dest: title_record_doi)
    qed
    from d False Hit
    have "consulted DataCite (tr @ [Call EuropePMC ByTitle ?m]) \<or> truthy (dict_get ?m ''doi'')"
      by (auto simp: title_from_europepmc_def Let_def consulted_simps split: if_splits
          dest!: title_from_datacite_datacite)
    with up show ?thesis by (auto simp: consulted_simps)
  next
    case Raised
    with d False show ?thesis
      by (auto simp: title_from_europepmc_def consulted_simps dest!: title_from_datacite_datacite)
  next
    case NoResult
    with d False show ?thesis
      by (auto simp: title_from_europepmc_def consulted_simps dest!: title_from_datacite_datacite)
  next
    case (RaisedAfterId i)
    with d False show ?thesis
      by (auto simp: title_from_europepmc_def consulted_simps dest!: title_from_datacite_datacite)
  qed
qed

lemma title_from_crossref_datacite:
  assumes m: "truthy (dict_get meta ''doi'') \<longrightarrow> id_upstream w"
    and d: "consulted DataCite (trace (title_from_crossref w meta tr))"
  shows "consulted DataCite tr \<or> id_upstream w"
proof (cases "truthy (dict_get meta ''doi'')")
  case True
  with m show ?thesis by simp
next
  case False
  show ?thesis
  proof (cases "w Crossref ByTitle")
    case (Hit i b u)
    let ?m = "enrich meta (crossref_title_record (normalize_doi i) b u)"
    have up: "truthy (dict_get ?m ''doi'') \<longrightarrow> id_upstream w"
    proof
      assume "truthy (dict_get ?m ''doi'')"
      from enrich_truthy_origin[OF this] m Hit show "id_upstream w"
        by (auto simp: id_upstream_def dest: title_record_doi)
    qed
    from Hit have up': "truthy (normalize_doi i) \<longrightarrow> id_upstream w"
      by (simp add: id_upstream_def)
    from d False Hit
    have "consulted DataCite (trace (title_from_europepmc w ?m (normalize_doi i)
             (tr @ [Call Crossref ByTitle ?m]))) \<or> consulted DataCite tr"
      by (auto simp: title_from_crossref_def Let_def consulted_simps split: if_splits)
    with title_from_europepmc_datacite[OF up' up, where tr = "tr @ [Call Crossref ByTitle ?m]"] show ?thesis by (auto simp: consulted_simps)
  next
    case (RaisedAfterId i)
    then have up': "truthy (normalize_doi i) \<longrightarrow> id_upstream w"
      by (simp add: id_upstream_def)
    from d False RaisedAfterId
    have "consulted DataCite (trace (title_from_europepmc w meta (normalize_doi i)
             (tr @ [Call Crossref ByTitle meta])))"
      by (simp add: title_from_crossref_def Let_def)
    with title_from_europepmc_datacite[OF up' m, where tr = "tr @ [Call Crossref ByTitle meta]"] show ?thesis by (auto simp: consulted_simps)
  next
    case Raised
    with d False
    have "consulted DataCite (trace (title_from_europepmc w meta (dict_get meta ''doi'')
             (tr @ [Call Crossref ByTitle meta])))"
      by (simp add: title_from_crossref_def Let_def)
    with title_from_europepmc_datacite[OF m m, where tr = "tr @ [Call Crossref ByTitle meta]"] show ?thesis by (auto simp: consulted_simps)
  next
    case NoResult
    with d False
    have "consulted DataCite (trace (title_from_europepmc w meta (dict_get meta ''doi'')
             (tr @ [Call Crossref ByTitle meta])))"
      by (simp add: title_from_crossref_def Let_def)
    with title_from_europepmc_datacite[OF m m, where tr = "tr @ [Call Crossref ByTitle meta]"] show ?thesis by (auto simp: consulted_simps)
  qed
qed

lemma title_from_openalex_datacite:
  assumes m: "truthy (dict_get meta ''doi'') \<longrightarrow> id_upstream w"
    and d: "consulted DataCite (trace (title_from_openalex w meta tr))"
  shows "consulted DataCite tr \<or> id_upstream w"
proof (cases "w OpenAlex ByTitle")
  case (Hit i b u)
  let ?m = "enrich meta (openalex_title_record (normalize_doi i) b u)"
  have up: "truthy (dict_get ?m ''doi'') \<longrightarrow> id_upstream w"
  proof
    assume "truthy (dict_get ?m ''doi'')"
    from enrich_truthy_origin[OF this] m Hit show "id_upstream w"
      by (auto simp: id_upstream_def dest: title_record_doi)
  qed
  from d Hit
  have "consulted DataCite (trace (title_from_crossref w ?m (tr @ [Call OpenAlex ByTitle ?m])))
        \<or> consulted DataCite tr"
    by (auto simp: title_from_openalex_def Let_def consulted_simps split: if_splits)
  with title_from_crossref_datacite[OF up, where tr = "tr @ [Call OpenAlex ByTitle ?m]"] show ?thesis by (auto simp: consulted_simps)
next
  case Raised
  with d have "consulted DataCite (trace (title_from_crossref w meta (tr @ [Call OpenAlex ByTitle meta])))"
    by (simp add: title_from_openalex_def)
  with title_from_crossref_datacite[OF m, where tr = "tr @ [Call OpenAlex ByTitle meta]"] show ?thesis by (auto simp: consulted_simps)
next
  case NoResult
  with d have "consulted DataCite (trace (title_from_crossref w meta (tr @ [Call OpenAlex ByTitle meta])))"
    by (simp add: title_from_openalex_def)
  with title_from_crossref_datacite[OF m, where tr = "tr @ [Call OpenAlex ByTitle meta]"] show ?thesis by (auto simp: consulted_simps)
next
  case (RaisedAfterId i)
  with d have "consulted DataCite (trace (title_from_crossref w meta (tr @ [Call OpenAlex ByTitle meta])))"
    by (simp add: title_from_openalex_def)
  with title_from_crossref_datacite[OF m, where tr = "tr @ [Call OpenAlex ByTitle meta]"] show ?thesis by (auto simp: consulted_simps)
qed

lemma fetch_metadata_from_title_datacite:
  assumes "consulted DataCite (trace (fetch_metadata_from_title w t))"
  shows "id_upstream w"
proof -
  have "\<not> truthy (dict_get empty_meta_title ''doi'')"
    by (simp add: empty_meta_title_def dict_get_def)
  then have m: "truthy (dict_get empty_meta_title ''doi'') \<longrightarrow> id_upstream w" by simp
  from assms have "consulted DataCite (trace (title_from_openalex w empty_meta_title []))"
    by (auto simp: fetch_metadata_from_title_def consulted_simps split: pyval.splits if_splits)
  from title_from_openalex_datacite[OF m this] show ?thesis by (simp add: consulted_simps)
qed

section \<open>Two lookups by title\<close>

lemma lower_sample:
  "lower ''10.1/abc'' = ''10.1/abc''" "lower ''10.2/xyz'' = ''10.2/xyz''"
  "lower ''10.1/x'' = ''10.1/x''"
  by code_simp+

text \<open>The blocks of the title lookup, one reply at a time.\<close>

lemma title_from_openalex_miss:
  "w OpenAlex ByTitle = NoResult \<Longrightarrow>
   title_from_openalex w meta tr = title_from_crossref w meta (tr @ [Call OpenAlex ByTitle meta])"
  by (simp add: title_from_openalex_def)

lemma title_from_crossref_after_id:
  "\<not> truthy (dict_get meta ''doi'') \<Longrightarrow> w Crossref ByTitle = RaisedAfterId i \<Longrightarrow>
   title_from_crossref w meta tr =
     title_from_europepmc w meta (normalize_doi i) (tr @ [Call Crossref ByTitle meta])"
  by (simp add: title_from_crossref_def Let_def)

lemma title_from_crossref_raised:
  "\<not> truthy (dict_get meta ''doi'') \<Longrightarrow> w Crossref ByTitle = Raised \<Longrightarrow>
   title_from_crossref w meta tr =
     title_from_europepmc w meta (dict_get meta ''doi'') (tr @ [Call Crossref ByTitle meta])"
  by (simp add: title_from_crossref_def Let_def)

lemma title_from_europepmc_skip:
  "truthy doi \<Longrightarrow> title_from_europepmc w meta doi tr = title_from_datacite w meta doi tr"
  by (simp add: title_from_europepmc_def)

lemma title_from_europepmc_Hit:
  "\<not> truthy doi \<Longrightarrow> w EuropePMC ByTitle = Hit i b u \<Longrightarrow>
   enrich meta (europepmc_title_record (normalize_doi i) b u) = m \<Longrightarrow> \<not> is_complete m \<Longrightarrow>
   title_from_europepmc w meta doi tr =
     title_from_datacite w m (dict_get m ''doi'') (tr @ [Call EuropePMC ByTitle m])"
  by (simp add: title_from_europepmc_def Let_def)

lemma title_from_datacite_miss:
  "d \<noteq> [] \<Longrightarrow> w DataCite (ByDoi (lower d)) = NoResult \<Longrightarrow>
   title_from_datacite w meta (PStr d) tr =
     title_from_semantic w meta (PStr d) (tr @ [Call DataCite (ByDoi (lower d)) meta])"
  by (simp add: title_from_datacite_def try_block_def)

lemma title_from_semantic_Hit:
  "d \<noteq> [] \<Longrightarrow> w SemanticScholar (ByDoi d) = Hit i b u \<Longrightarrow>
   enrich meta (semantic_title_record (py_or (PStr d) (normalize_doi i)) b u) = m \<Longrightarrow>
   truthy (dict_get m ''url'') \<Longrightarrow>
   title_from_semantic w meta (PStr d) tr =
     \<lparr>result = Some m, trace = tr @ [Call SemanticScholar (ByDoi d) m]\<rparr>"
  by (simp add: title_from_semantic_def Let_def)

lemma no_doi_yet: "\<not> truthy (dict_get empty_meta_title ''doi'')"
  by (simp add: empty_meta_title_def dict_get_def)

lemma semantic_abc:
  "enrich empty_meta_title
     (semantic_title_record (py_or (PStr ''10.1/abc'') (normalize_doi PNone)) some_effect None) =
   found_abc"
  by (simp add: normalize_doi_None found_abc_def record_defs dict_defs)

lemma found_abc_url: "truthy (dict_get found_abc ''url'')"
  by (simp add: found_abc_def dict_get_def)

lemma crossref_malformed_lookup:
  "fetch_metadata_from_title crossref_malformed (PStr ''Some Effect'') =
     \<lparr>result = Some found_abc,
      trace = [Call OpenAlex ByTitle empty_meta_title, Call Crossref ByTitle empty_meta_title,
               Call DataCite (ByDoi ''10.1/abc'') empty_meta_title,
               Call SemanticScholar (ByDoi ''10.1/abc'') found_abc]\<rparr>"
proof -
  let ?w = crossref_malformed
  let ?m = empty_meta_title
  have "fetch_metadata_from_title ?w (PStr ''Some Effect'') = title_from_openalex ?w ?m []"
    by (simp add: fetch_metadata_from_title_def strip_sample)
  also have "\<dots> = title_from_crossref ?w ?m [Call OpenAlex ByTitle ?m]"
    by (simp add: title_from_openalex_miss crossref_malformed_def)
  also have "\<dots> = title_from_europepmc ?w ?m (PStr ''10.1/abc'')
                      [Call OpenAlex ByTitle ?m, Call Crossref ByTitle ?m]"
    by (simp add: title_from_crossref_after_id[where i = "PStr ''10.1/abc''"] no_doi_yet
        crossref_malformed_def normalize_doi_sample)
  also have "\<dots> = title_from_datacite ?w ?m (PStr ''10.1/abc'')
                      [Call OpenAlex ByTitle ?m, Call Crossref ByTitle ?m]"
    by (simp add: title_from_europepmc_skip)
  also have "\<dots> = title_from_semantic ?w ?m (PStr ''10.1/abc'')
                      [Call OpenAlex ByTitle ?m, Call Crossref ByTitle ?m,
                       Call DataCite (ByDoi ''10.1/abc'') ?m]"
    by (simp add: title_from_datacite_miss crossref_malformed_def lower_sample)
  also have "\<dots> = \<lparr>result = Some found_abc,
                      trace = [Call OpenAlex ByTitle ?m, Call Crossref ByTitle ?m,
                               Call DataCite (ByDoi ''10.1/abc'') ?m,
                               Call SemanticScholar (ByDoi ''10.1/abc'') found_abc]\<rparr>"
    by (simp add: title_from_semantic_Hit[where i = PNone and b = some_effect and u = None
          and m = found_abc] crossref_malformed_def semantic_abc found_abc_url)
  finally show ?thesis .
qed

lemma europepmc_xyz:
  "enrich empty_meta_title (europepmc_title_record (normalize_doi (PStr ''10.2/xyz'')) some_effect None) =
   partial_xyz"
  by (simp add: normalize_doi_sample partial_xyz_def record_defs dict_defs)

lemma partial_xyz_facts:
  "\<not> is_complete partial_xyz" "dict_get partial_xyz ''doi'' = PStr ''10.2/xyz''"
  by (simp_all add: partial_xyz_def dict_defs)

lemma semantic_xyz:
  "enrich partial_xyz
     (semantic_title_record (py_or (PStr ''10.2/xyz'') (normalize_doi PNone)) some_effect None) =
   found_xyz"
  by (simp add: normalize_doi_None found_xyz_def partial_xyz_def record_defs dict_defs)

lemma found_xyz_url: "truthy (dict_get found_xyz ''url'')"
  by (simp add: found_xyz_def dict_get_def)

lemma crossref_down_lookup:
  "fetch_metadata_from_title crossref_down (PStr ''Some Effect'') =
     \<lparr>result = Some found_xyz,
      trace = [Call OpenAlex ByTitle empty_meta_title, Call Crossref ByTitle empty_meta_title,
               Call EuropePMC ByTitle partial_xyz,
               Call DataCite (ByDoi ''10.2/xyz'') partial_xyz,
               Call SemanticScholar (ByDoi ''10.2/xyz'') found_xyz]\<rparr>"
proof -
  let ?w = crossref_down
  let ?m = empty_meta_title
  have "fetch_metadata_from_title ?w (PStr ''Some Effect'') = title_from_openalex ?w ?m []"
    by (simp add: fetch_metadata_from_title_def strip_sample)
  also have "\<dots> = title_from_crossref ?w ?m [Call OpenAlex ByTitle ?m]"
    by (simp add: title_from_openalex_miss crossref_down_def)
  also have "\<dots> = title_from_europepmc ?w ?m (dict_get ?m ''doi'')
                      [Call OpenAlex ByTitle ?m, Call Crossref ByTitle ?m]"
    by (simp add: title_from_crossref_raised no_doi_yet crossref_down_def)
  also have "\<dots> = title_from_datacite ?w partial_xyz (PStr ''10.2/xyz'')
                      [Call OpenAlex ByTitle ?m, Call Crossref ByTitle ?m,
                       Call EuropePMC ByTitle partial_xyz]"
    by (simp add: title_from_europepmc_Hit[where i = "PStr ''10.2/xyz''" and b = some_effect
          and u = None and m = partial_xyz] no_doi_yet crossref_down_def europepmc_xyz
        partial_xyz_facts)
  also have "\<dots> = title_from_semantic ?w partial_xyz (PStr ''10.2/xyz'')
                      [Call OpenAlex ByTitle ?m, Call Crossref ByTitle ?m,
                       Call EuropePMC ByTitle partial_xyz,
                       Call DataCite (ByDoi ''10.2/xyz'') partial_xyz]"
    by (simp add: title_from_datacite_miss crossref_down_def lower_sample)
  also have "\<dots> = \<lparr>result = Some found_xyz,
                      trace = [Call OpenAlex ByTitle ?m, Call Crossref ByTitle ?m,
                               Call EuropePMC ByTitle partial_xyz,
                               Call DataCite (ByDoi ''10.2/xyz'') partial_xyz,
                               Call SemanticScholar (ByDoi ''10.2/xyz'') found_xyz]\<rparr>"
    by (simp add: title_from_semantic_Hit[where i = PNone and b = some_effect and u = None
          and m = found_xyz] crossref_down_def semantic_xyz found_xyz_url)
  finally show ?thesis .
qed

lemma all_silent_lookup:
  "map source (trace (fetch_metadata_from_doi all_silent (PStr ''10.1/x''))) =
     [OpenAlex, DataCite, Crossref, Unpaywall, EuropePMC, SemanticScholar]"
  by (simp add: fetch_metadata_from_doi_def doi_from_openalex_def doi_from_datacite_def
      doi_from_crossref_def doi_from_unpaywall_def doi_from_europepmc_def doi_from_semantic_def
      strip_sample all_silent_def try_block_simps
      cong: step.case_cong_weak)

lemma fetch_metadata_from_doi_order:
  "map source (trace (fetch_metadata_from_doi w v)) =
     take (length (trace (fetch_metadata_from_doi w v))) doi_order \<and>
   (trace (fetch_metadata_from_doi w v) = [] \<or>
    length (trace (fetch_metadata_from_doi w v)) = 6 \<or>
    is_complete (after (last (trace (fetch_metadata_from_doi w v)))))"
proof (cases "\<exists>s. v = PStr s \<and> strip s \<noteq> []")
  case True
  then obtain s where "v = PStr s" "strip s \<noteq> []" by auto
  then have "fetch_metadata_from_doi w v = doi_from_openalex w (strip s) empty_meta_doi []"
    by (simp add: fetch_metadata_from_doi_def)
  with doi_from_openalex_order[of w "strip s" empty_meta_doi] show ?thesis by simp
next
  case False
  then have "trace (fetch_metadata_from_doi w v) = []"
    by (auto simp: fetch_metadata_from_doi_def split: pyval.splits)
  then show ?thesis by simp
qed

text \<open>
  Claim C7, as the code has it. The lookup by identifier asks its providers in the fixed
  order OpenAlex, DataCite, Crossref, Unpaywall, Europe PMC, Semantic Scholar: the
  providers asked are an initial part of this list of six, and all six are asked unless a
  call leaves a complete record. The lookup by title asks in the fixed order OpenAlex,
  Crossref, Europe PMC, DataCite, Semantic Scholar, each at most once and never Unpaywall,
  so at most five; DataCite is asked only when an upstream title reply (OpenAlex, Crossref
  or Europe PMC) carried an identifier.
\<close>

theorem provider_order:
  fixes w w' :: world and v t :: pyval
  defines "r \<equiv> fetch_metadata_from_doi w v"
    and "r' \<equiv> fetch_metadata_from_title w' t"
  shows "map source (trace r) = take (length (trace r)) doi_order \<and>
         (trace r = [] \<or> length (trace r) = 6 \<or> is_complete (after (last (trace r)))) \<and>
         sorted_wrt (<) (map (\<lambda>c. title_rank (source c)) (trace r')) \<and>
         \<not> consulted Unpaywall (trace r') \<and>
         length (trace r') \<le> 5 \<and>
         (consulted DataCite (trace r') \<longrightarrow> id_upstream w')"
proof -
  have rk: "ranked_below 5 (trace r')"
    unfolding r'_def by (rule fetch_metadata_from_title_ranked)
  then have a: "sorted_wrt (<) (map (\<lambda>c. title_rank (source c)) (trace r'))"
    by (simp add: ranked_below_def)
  from rk have b: "\<not> consulted Unpaywall (trace r')"
    by (auto simp: ranked_below_def consulted_def list_all_iff)
  from rk have c: "length (trace r') \<le> 5"
    by (rule ranked_below_length)
  have d: "consulted DataCite (trace r') \<longrightarrow> id_upstream w'"
    unfolding r'_def using fetch_metadata_from_title_datacite by blast
  from fetch_metadata_from_doi_order[of w v] a b c d show ?thesis
    unfolding r_def by blast
qed

theorem provider_order_witness:
  "consulted DataCite (trace (fetch_metadata_from_title crossref_down (PStr ''Some Effect''))) \<and>
   id_upstream crossref_down \<and>
   map source (trace (fetch_metadata_from_title crossref_down (PStr ''Some Effect''))) =
     [OpenAlex, Crossref, EuropePMC, DataCite, SemanticScholar] \<and>
   map source (trace (fetch_metadata_from_doi all_silent (PStr ''10.1/x''))) = doi_order"
proof -
  have a: "consulted DataCite (trace (fetch_metadata_from_title crossref_down (PStr ''Some Effect'')))"
    by (simp add: crossref_down_lookup consulted_def)
  have b: "map source (trace (fetch_metadata_from_title crossref_down (PStr ''Some Effect''))) =
     [OpenAlex, Crossref, EuropePMC, DataCite, SemanticScholar]"
    by (simp add: crossref_down_lookup)
  have c: "map source (trace (fetch_metadata_from_doi all_silent (PStr ''10.1/x''))) = doi_order"
    by (simp add: all_silent_lookup doi_order_def)
  from provider_order[where w' = crossref_down and t = "PStr ''Some Effect''"] a b c
  show ?thesis by blast
qed

text \<open>
  With no provider answering, the lookup by identifier asks six providers, not four.
\<close>

theorem identifier_mode_six_sources:
  "length (trace (fetch_metadata_from_doi all_silent (PStr ''10.1/x''))) = 6 \<and>
   map source (trace (fetch_metadata_from_doi all_silent (PStr ''10.1/x''))) =
     [OpenAlex, DataCite, Crossref, Unpaywall, EuropePMC, SemanticScholar]"
proof -
  let ?tr = "trace (fetch_metadata_from_doi all_silent (PStr ''10.1/x''))"
  have "length ?tr = length (map source ?tr)"
    by simp
  also have "\<dots> = 6"
    unfolding all_silent_lookup by simp
  finally show ?thesis
    by (simp add: all_silent_lookup)
qed

text \<open>
  Claim C8 at a malformed Crossref reply in the lookup by title. When the Crossref request
  fails outright, the lookup goes on to Europe PMC, which knows the paper as
  \<open>10.2/xyz\<close>. When Crossref answers with an item whose \<open>DOI\<close> is \<open>10.1/abc\<close> and
  whose year cannot be read, the exception is caught but the local variable \<open>doi\<close> keeps
  the identifier: Europe PMC is not asked, DataCite and Semantic Scholar are asked about
  \<open>10.1/abc\<close>, and the returned record carries \<open>10.1/abc\<close>.
\<close>

theorem crossref_fault_not_isolated:
  "map source (trace (fetch_metadata_from_title crossref_down (PStr ''Some Effect''))) =
     [OpenAlex, Crossref, EuropePMC, DataCite, SemanticScholar] \<and>
   result (fetch_metadata_from_title crossref_down (PStr ''Some Effect'')) = Some found_xyz \<and>
   map source (trace (fetch_metadata_from_title crossref_malformed (PStr ''Some Effect''))) =
     [OpenAlex, Crossref, DataCite, SemanticScholar] \<and>
   result (fetch_metadata_from_title crossref_malformed (PStr ''Some Effect'')) = Some found_abc \<and>
   dict_get found_abc ''doi'' = PStr ''10.1/abc''"
  by (simp add: crossref_down_lookup crossref_malformed_lookup found_abc_def dict_get_def)

section \<open>Deduplication\<close>

lemma pd_eq_CStr: "pd_eq c (CStr b) \<longleftrightarrow> c = CStr b"
  by (cases c) auto

lemma pd_eq_missing: "pd_eq c CNaN = False" "pd_eq c CNone = False"
  by (cases c; simp)+

lemma check_duplicate_key:
  "same_key r1 r2 \<Longrightarrow> check_duplicate r1 master_df = check_duplicate r2 master_df"
  by (simp add: check_duplicate_def same_key_def)

lemma dedup_loop_append:
  "dedup_loop batch master_df acc n = Inr (keep, k) \<Longrightarrow>
   keep = acc @ filter (\<lambda>r. check_duplicate r master_df = Inr False) batch \<and>
   k = n + length (filter (\<lambda>r. check_duplicate r master_df = Inr True) batch)"
proof (induction batch arbitrary: acc n)
  case Nil
  then show ?case by simp
next
  case (Cons row rest)
  show ?case
  proof (cases "check_duplicate row master_df")
    case (Inl e)
    with Cons.prems show ?thesis by simp
  next
    case (Inr b)
    show ?thesis
    proof (cases b)
      case True
      with Inr Cons.prems have "dedup_loop rest master_df acc (n + 1) = Inr (keep, k)"
        by simp
      from Cons.IH[OF this] Inr True show ?thesis by simp
    next
      case False
      with Inr Cons.prems have "dedup_loop rest master_df (acc @ [row]) n = Inr (keep, k)"
        by simp
      from Cons.IH[OF this] Inr False show ?thesis by simp
    qed
  qed
qed

lemma rows_reorder_columns: "rows (reorder_columns valid_columns df) = rows df"
  by (simp add: reorder_columns_def Let_def)

lemma rows_pd_concat: "rows (pd_concat a b) = rows a @ rows b"
  by (simp add: pd_concat_def)

text \<open>
  The updated master frame is the old rows, unchanged and in place, followed by the input
  rows that match no old row.
\<close>

lemma ingest_data_rows:
  assumes "ingest_data valid_columns processed_df master_df = Inr updated"
  shows "rows updated =
           rows master_df @ filter (\<lambda>r. check_duplicate r master_df = Inr False) (rows processed_df)"
proof -
  from assms obtain keep k where l: "dedup_loop (rows processed_df) master_df [] 0 = Inr (keep, k)"
    by (auto simp: ingest_data_def split: sum.splits)
  from dedup_loop_append[OF l]
  have keep: "keep = filter (\<lambda>r. check_duplicate r master_df = Inr False) (rows processed_df)"
    by simp
  from assms l have "rows updated = (if keep \<noteq> [] then rows master_df @ keep else rows master_df)"
    by (auto simp: ingest_data_def Let_def rows_reorder_columns rows_pd_concat)
  with keep show ?thesis by auto
qed

text \<open>
  Claim C10. A row is tested against the master frame as it was loaded, never against the
  other rows of the input. If an input holds two rows that agree on the key
  (original URL, replication URL, description) and the first matches no master row, both
  are appended: the updated master frame is the old rows followed by the two rows, which
  duplicate each other.
\<close>

theorem duplicates_within_batch_are_kept:
  assumes "same_key r1 r2" and "check_duplicate r1 master_df = Inr False"
  shows "\<exists>updated. ingest_data valid_columns \<lparr>columns = cols, rows = [r1, r2]\<rparr> master_df = Inr updated \<and>
           rows updated = rows master_df @ [r1, r2]"
proof -
  from assms have 2: "check_duplicate r2 master_df = Inr False"
    by (simp add: check_duplicate_key[of r1 r2])
  with assms(2) have "dedup_loop [r1, r2] master_df [] 0 = Inr ([r1, r2], 0)"
    by simp
  then show ?thesis
    by (simp add: ingest_data_def Let_def rows_reorder_columns rows_pd_concat)
qed

theorem duplicates_within_batch_are_kept_witness:
  "same_key url_a url_a \<and>
   check_duplicate url_a \<lparr>columns = [], rows = []\<rparr> = Inr False \<and>
   (\<exists>updated. ingest_data key_columns \<lparr>columns = key_columns, rows = [url_a, url_a]\<rparr>
                 \<lparr>columns = [], rows = []\<rparr> = Inr updated \<and>
              rows updated = rows \<lparr>columns = [], rows = []\<rparr> @ [url_a, url_a])"
proof -
  have a: "same_key url_a url_a"
    by (simp add: same_key_def)
  have b: "check_duplicate url_a \<lparr>columns = [], rows = []\<rparr> = Inr False"
    by (simp add: check_duplicate_def df_empty_def)
  from duplicates_within_batch_are_kept[OF a b, of key_columns key_columns] a b
  show ?thesis by blast
qed

text \<open>
  When the three key cells of a row are strings and the master frame has the key columns,
  the row is a duplicate exactly when some master row has the same three strings.
\<close>

lemma check_duplicate_text_key:
  assumes "row_get row ''original_url'' = CStr a" "row_get row ''replication_url'' = CStr b"
    "row_get row ''description'' = CStr c"
    and "{''original_url'', ''replication_url'', ''description''} \<subseteq> set (columns master_df)"
  shows "check_duplicate row master_df =
           Inr (\<exists>m \<in> set (rows master_df).
                  df_cell m ''original_url'' = CStr a \<and> df_cell m ''replication_url'' = CStr b \<and>
                  df_cell m ''description'' = CStr c)"
proof (cases "df_empty master_df")
  case True
  with assms(4) have "rows master_df = []" by (auto simp: df_empty_def)
  with True show ?thesis by (simp add: check_duplicate_def)
next
  case False
  with assms show ?thesis
    by (auto simp: check_duplicate_def Let_def pd_eq_CStr filter_empty_conv)
qed

text \<open>
  Claim C2 at a row whose replication URL is missing. The master frame holds the very same
  row; the row is not recognised as a duplicate, because a missing cell compares unequal
  to a missing cell, and it is appended again: the master frame grows from one row to two
  equal rows.
\<close>

theorem missing_key_cell_is_appended_again:
  "check_duplicate no_replication_url \<lparr>columns = key_columns, rows = [no_replication_url]\<rparr> = Inr False \<and>
   ingest_data key_columns \<lparr>columns = key_columns, rows = [no_replication_url]\<rparr>
       \<lparr>columns = key_columns, rows = [no_replication_url]\<rparr> =
     Inr \<lparr>columns = key_columns, rows = [no_replication_url, no_replication_url]\<rparr>"
proof -
  have c: "check_duplicate no_replication_url \<lparr>columns = key_columns, rows = [no_replication_url]\<rparr> = Inr False"
    by (simp add: check_duplicate_def df_empty_def key_columns_def no_replication_url_def
        row_get_def df_cell_def)
  then have "dedup_loop [no_replication_url] \<lparr>columns = key_columns, rows = [no_replication_url]\<rparr> [] 0 =
               Inr ([no_replication_url], 0)"
    by simp
  then have "ingest_data key_columns \<lparr>columns = key_columns, rows = [no_replication_url]\<rparr>
       \<lparr>columns = key_columns, rows = [no_replication_url]\<rparr> =
     Inr \<lparr>columns = key_columns, rows = [no_replication_url, no_replication_url]\<rparr>"
    by (simp add: ingest_data_def Let_def reorder_columns_def pd_concat_def key_columns_def)
  with c show ?thesis by simp
qed

section \<open>The sanity check compares the years\<close>

lemma replace_dot0_suffix: "\<not> occurs t ''.0'' \<Longrightarrow> replace (t @ ''.0'') ''.0'' [] = t"
proof (induction t)
  case Nil
  show ?case
    by (subst replace.simps, simp add: startswith_def, subst replace.simps, simp)
next
  case (Cons c cs)
  then have n: "\<not> startswith (c # cs) ''.0''" and r: "\<not> occurs cs ''.0''"
    by simp_all
  from n have "\<not> startswith ((c # cs) @ ''.0'') ''.0''"
    by (cases cs) (auto simp: startswith_def)
  with Cons.IH[OF r] show ?case
    by (subst replace.simps) simp
qed

lemma endswith_split: "endswith s p \<Longrightarrow> s = take (length s - length p) s @ p"
  unfolding endswith_def by (metis append_take_drop_id)

lemma replace_chop_dot0:
  assumes "dot0_only_trailing s"
  shows "replace s ''.0'' [] = chop_dot0 s"
proof (cases "endswith s ''.0''")
  case True
  then have c: "chop_dot0 s = take (length s - 2) s"
    by (simp add: chop_dot0_def)
  from endswith_split[OF True] have s: "s = take (length s - 2) s @ ''.0''"
    by (simp add: numeral_2_eq_2)
  from assms c have "\<not> occurs (take (length s - 2) s) ''.0''"
    by (simp add: dot0_only_trailing_def)
  from replace_dot0_suffix[OF this] s c show ?thesis
    by simp
next
  case False
  with assms show ?thesis
    by (simp add: dot0_only_trailing_def chop_dot0_def replace_absent)
qed

lemma sanity_check_metadata_year:
  assumes "md \<noteq> []" "map_of row (prefix @ ''_year'') = Some v" "\<not> is_empty v"
    and "strip (py_str (year_or_blank md)) \<noteq> []"
  shows "sanity_check_metadata row prefix (Some md) =
           (replace (strip (py_str v)) ''.0'' [] =
            replace (strip (py_str (year_or_blank md))) ''.0'' [])"
  using assms by (simp add: sanity_check_metadata_def year_or_blank_def Let_def)

lemma sanity_check_metadata_accepts:
  assumes "md \<noteq> []"
    and "map_of row (prefix @ ''_year'') = None \<or>
         (\<exists>v. map_of row (prefix @ ''_year'') = Some v \<and>
              (is_empty v \<or> strip (py_str (year_or_blank md)) = []))"
  shows "sanity_check_metadata row prefix (Some md)"
  using assms by (auto simp: sanity_check_metadata_def year_or_blank_def Let_def)

lemma sanity_check_metadata_empty:
  "\<not> sanity_check_metadata row prefix None" "\<not> sanity_check_metadata row prefix (Some [])"
  by (simp_all add: sanity_check_metadata_def)

text \<open>
  Claim C4, as the code has it, for a candidate record that is not empty. If the row has a
  non-empty year for the entity and the candidate's year, as text and trimmed, is not
  blank, the check accepts exactly when the two texts agree after a trailing \<open>.0\<close> is
  removed from each, provided \<open>.0\<close> occurs nowhere else in them. If the row's year is
  empty, or the candidate's year is blank or absent, or the row has no year column, the
  check accepts. An absent or empty candidate record is rejected.
\<close>

theorem sanity_check_year:
  fixes row md :: dict and prefix :: string and v :: pyval
  defines "existing \<equiv> strip (py_str v)"
    and "fetched \<equiv> strip (py_str (year_or_blank md))"
  assumes "md \<noteq> []"
  shows "(map_of row (prefix @ ''_year'') = Some v \<and> \<not> is_empty v \<and> fetched \<noteq> [] \<and>
          dot0_only_trailing existing \<and> dot0_only_trailing fetched \<longrightarrow>
            sanity_check_metadata row prefix (Some md) = (chop_dot0 existing = chop_dot0 fetched)) \<and>
         (map_of row (prefix @ ''_year'') = Some v \<and> (is_empty v \<or> fetched = []) \<longrightarrow>
            sanity_check_metadata row prefix (Some md)) \<and>
         (map_of row (prefix @ ''_year'') = None \<longrightarrow> sanity_check_metadata row prefix (Some md)) \<and>
         \<not> sanity_check_metadata row prefix None \<and>
         \<not> sanity_check_metadata row prefix (Some [])"
proof (intro conjI impI)
  assume a: "map_of row (prefix @ ''_year'') = Some v \<and> \<not> is_empty v \<and> fetched \<noteq> [] \<and>
          dot0_only_trailing existing \<and> dot0_only_trailing fetched"
  then have "sanity_check_metadata row prefix (Some md) =
               (replace existing ''.0'' [] = replace fetched ''.0'' [])"
    unfolding existing_def fetched_def using assms(3) by (intro sanity_check_metadata_year) auto
  with a show "sanity_check_metadata row prefix (Some md) = (chop_dot0 existing = chop_dot0 fetched)"
    by (simp add: replace_chop_dot0)
next
  assume "map_of row (prefix @ ''_year'') = Some v \<and> (is_empty v \<or> fetched = [])"
  with assms(3) show "sanity_check_metadata row prefix (Some md)"
    unfolding fetched_def by (intro sanity_check_metadata_accepts) auto
next
  assume "map_of row (prefix @ ''_year'') = None"
  with assms(3) show "sanity_check_metadata row prefix (Some md)"
    by (intro sanity_check_metadata_accepts) auto
qed (simp_all add: sanity_check_metadata_empty)

lemma sample_year_texts:
  "strip ''2020'' = ''2020''"
  "strip (py_str (year_or_blank candidate_2020)) = ''2020.0''"
  "strip (py_str (year_or_blank candidate_2019)) = ''2019''"
  "strip (py_str (year_or_blank candidate_blank_year)) = []"
  by code_simp+

lemma sample_year_shapes:
  "dot0_only_trailing ''2020''" "dot0_only_trailing ''2020.0''" "dot0_only_trailing ''2019''"
  "chop_dot0 ''2020'' = ''2020''" "chop_dot0 ''2020.0'' = ''2020''" "chop_dot0 ''2019'' = ''2019''"
  by code_simp+

lemma row_2020_year:
  "map_of row_2020 ''original_year'' = Some (PStr ''2020'')" "\<not> is_empty (PStr ''2020'')"
  "map_of row_2020 ''replication_year'' = None"
  by code_simp+

theorem sanity_check_year_witness:
  "candidate_2020 \<noteq> [] \<and> candidate_2019 \<noteq> [] \<and>
   map_of row_2020 (''original'' @ ''_year'') = Some (PStr ''2020'') \<and> \<not> is_empty (PStr ''2020'') \<and>
   strip (py_str (year_or_blank candidate_2020)) \<noteq> [] \<and>
   dot0_only_trailing (strip (py_str (PStr ''2020''))) \<and>
   dot0_only_trailing (strip (py_str (year_or_blank candidate_2020))) \<and>
   sanity_check_metadata row_2020 ''original'' (Some candidate_2020) \<and>
   \<not> sanity_check_metadata row_2020 ''original'' (Some candidate_2019) \<and>
   map_of row_2020 (''replication'' @ ''_year'') = None \<and>
   sanity_check_metadata row_2020 ''replication'' (Some candidate_2019)"
proof -
  have ne: "candidate_2020 \<noteq> []" "candidate_2019 \<noteq> []"
    by (simp_all add: candidate_2020_def candidate_2019_def)
  note t = sample_year_texts sample_year_shapes row_2020_year
  from sanity_check_year[OF ne(1), of row_2020 "''original''" "PStr ''2020''"]
  have a: "sanity_check_metadata row_2020 ''original'' (Some candidate_2020)"
    by (simp add: t)
  from sanity_check_year[OF ne(2), of row_2020 "''original''" "PStr ''2020''"]
  have b: "\<not> sanity_check_metadata row_2020 ''original'' (Some candidate_2019)"
    by (simp add: t)
  from sanity_check_year[OF ne(2), of row_2020 "''replication''" "PStr ''2020''"]
  have c: "sanity_check_metadata row_2020 ''replication'' (Some candidate_2019)"
    by (simp add: t)
  from ne a b c show ?thesis
    by (simp add: t)
qed

text \<open>
  Where the claim fails as stated: a candidate whose year is blank is accepted against the
  existing year 2020, though the two do not match; an empty candidate record is rejected
  though the row has no year to compare with; and \<open>str.replace\<close> deletes a \<open>.0\<close>
  inside the text too, so that the existing \<open>2.020\<close> accepts the candidate 220.
\<close>

theorem sanity_check_year_counterexample:
  "map_of row_2020 (''original'' @ ''_year'') = Some (PStr ''2020'') \<and> \<not> is_empty (PStr ''2020'') \<and>
   sanity_check_metadata row_2020 ''original'' (Some candidate_blank_year) \<and>
   chop_dot0 (strip (py_str (year_or_blank candidate_blank_year))) \<noteq>
     chop_dot0 (strip (py_str (PStr ''2020''))) \<and>
   map_of row_2020 (''replication'' @ ''_year'') = None \<and>
   \<not> sanity_check_metadata row_2020 ''replication'' (Some []) \<and>
   map_of row_inner_dot0 (''original'' @ ''_year'') = Some (PStr ''2.020'') \<and>
   \<not> is_empty (PStr ''2.020'') \<and>
   sanity_check_metadata row_inner_dot0 ''original'' (Some candidate_220) \<and>
   chop_dot0 (strip (py_str (year_or_blank candidate_220))) \<noteq>
     chop_dot0 (strip (py_str (PStr ''2.020'')))"
  by code_simp

end
